(* ===== verification/Prelude.thy ===== *)
theory Prelude
  imports Main
begin

text \<open>
  Shared vocabulary of the development: the character classes of Python's
  \<open>str\<close> type that the normaliser's regular expressions and \<open>str.strip\<close>
  use, the newline character, \<open>str.strip\<close> itself, and generic lemmas on
  \<open>takeWhile\<close>/\<open>dropWhile\<close> that the component proofs share.

  Characters are Isabelle's 8-bit \<open>char\<close>: a Python string is modelled as
  the sequence of its code points, restricted to code points below 256
  (ASCII and Latin-1).  On that range the classes below are exactly
  CPython's.
\<close>

named_theorems scan_simps "rewrite rules of the regex scanners"

abbreviation nl :: char where
  "nl \<equiv> CHR ''\<newline>''"

text \<open>
  \<open>\s\<close> in a \<open>str\<close> pattern and \<open>str.isspace\<close>/\<open>str.strip\<close> both use
  \<open>Py_UNICODE_ISSPACE\<close>: below 256 these are TAB, LF, VT, FF, CR, the four
  information separators 0x1C--0x1F, SPACE, NEL (0x85) and NBSP (0xA0).
\<close>

definition py_isspace :: "char \<Rightarrow> bool" where
  "py_isspace c \<longleftrightarrow>
     c \<in> set [CHR 0x09, CHR ''\<newline>'', CHR 0x0B, CHR 0x0C, CHR 0x0D,
              CHR 0x1C, CHR 0x1D, CHR 0x1E, CHR 0x1F, CHR '' '', CHR 0x85, CHR 0xA0]"

text \<open>\<open>\d\<close>: Unicode decimal digits; below 256 only \<open>0\<close>--\<open>9\<close>.\<close>

definition py_isdigit :: "char \<Rightarrow> bool" where
  "py_isdigit c \<longleftrightarrow> c \<in> set ''0123456789''"

text \<open>\<open>str.strip()\<close> with no argument: drop whitespace at both ends.\<close>

definition py_strip :: "string \<Rightarrow> string" where
  "py_strip s = rev (dropWhile py_isspace (rev (dropWhile py_isspace s)))"

lemma py_isspace_nl [simp, scan_simps]: "py_isspace nl"
  by (simp add: py_isspace_def)

lemma py_isdigit_not_space [simp]: "py_isdigit c \<Longrightarrow> \<not> py_isspace c"
  by (auto simp: py_isdigit_def py_isspace_def)

lemma py_isspace_not_digit: "py_isspace c \<Longrightarrow> \<not> py_isdigit c"
  by (auto simp: py_isdigit_def py_isspace_def)

lemma py_isspace_angles [simp]:
  "\<not> py_isspace CHR ''<''" "\<not> py_isspace CHR ''>''"
  by (simp_all add: py_isspace_def)

lemma py_isdigit_angles [simp]:
  "\<not> py_isdigit CHR ''<''" "\<not> py_isdigit CHR ''>''" "\<not> py_isdigit nl"
  by (simp_all add: py_isdigit_def)

subsection \<open>Generic list lemmas\<close>

lemma takeWhile_dropWhile_split:
  "s = takeWhile P s @ dropWhile P s"
  by simp

lemma dropWhile_hd_not:
  "dropWhile P s \<noteq> [] \<Longrightarrow> \<not> P (hd (dropWhile P s))"
  by (induction s) auto

lemma length_dropWhile_le [simp]: "length (dropWhile P s) \<le> length s"
  by (induction s) auto

lemma length_dropWhile_less_Suc: "length (dropWhile P s) - Suc 0 < Suc (length s)"
  using length_dropWhile_le [of P s] by arith

lemma takeWhile_all: "x \<in> set (takeWhile P s) \<Longrightarrow> P x"
  by (induction s) (auto split: if_splits)

lemma dropWhile_idem [simp]: "dropWhile P (dropWhile P s) = dropWhile P s"
  by (induction s) auto

lemma ex_infix_Cons:
  "(\<exists>u v w. c # s = u @ v @ w \<and> P v) \<longleftrightarrow>
     (\<exists>v w. c # s = v @ w \<and> P v) \<or> (\<exists>u v w. s = u @ v @ w \<and> P v)"
proof
  assume "\<exists>u v w. c # s = u @ v @ w \<and> P v"
  then obtain u v w where e: "c # s = u @ v @ w" "P v" by blast
  show "(\<exists>v w. c # s = v @ w \<and> P v) \<or> (\<exists>u v w. s = u @ v @ w \<and> P v)"
  proof (cases u)
    case Nil
    with e show ?thesis by auto
  next
    case (Cons x u')
    with e have "s = u' @ v @ w" by simp
    with e show ?thesis by blast
  qed
next
  assume "(\<exists>v w. c # s = v @ w \<and> P v) \<or> (\<exists>u v w. s = u @ v @ w \<and> P v)"
  then show "\<exists>u v w. c # s = u @ v @ w \<and> P v"
  proof
    assume "\<exists>v w. c # s = v @ w \<and> P v"
    then obtain v w where "c # s = [] @ v @ w" "P v" by auto
    then show ?thesis by blast
  next
    assume "\<exists>u v w. s = u @ v @ w \<and> P v"
    then obtain u v w where "c # s = (c # u) @ v @ w" "P v" by auto
    then show ?thesis by blast
  qed
qed

lemma ex_infix_fixed_Cons:
  "(\<exists>u w. c # s = u @ x @ w) \<longleftrightarrow> (\<exists>w. c # s = x @ w) \<or> (\<exists>u w. s = u @ x @ w)"
  using ex_infix_Cons [of c s "\<lambda>v. v = x"] by simp

lemma py_strip_ends:
  assumes "py_strip s \<noteq> []"
  shows "\<not> py_isspace (hd (py_strip s)) \<and> \<not> py_isspace (last (py_strip s))"
proof -
  let ?a = "dropWhile py_isspace s"
  let ?b = "dropWhile py_isspace (rev ?a)"
  have b: "?b \<noteq> []" using assms by (simp add: py_strip_def)
  have "\<not> py_isspace (last (py_strip s))"
    using dropWhile_hd_not [OF b] b by (simp add: py_strip_def last_rev)
  moreover have "?a \<noteq> []" using b by (auto simp del: dropWhile_eq_Nil_conv)
  moreover have "hd (py_strip s) = hd ?a"
  proof -
    have "rev ?a = takeWhile py_isspace (rev ?a) @ ?b" by simp
    then have "?a = rev ?b @ rev (takeWhile py_isspace (rev ?a))"
      by (metis rev_append rev_rev_ident)
    then have "hd ?a = hd (rev ?b)" using b by (metis hd_append2 Nil_is_rev_conv)
    then show ?thesis by (simp add: py_strip_def)
  qed
  ultimately show ?thesis using dropWhile_hd_not [of py_isspace s] by simp
qed

lemma py_strip_infix: "\<exists>a b. s = a @ py_strip s @ b"
proof -
  let ?x = "dropWhile py_isspace s"
  have "s = takeWhile py_isspace s @ ?x" by simp
  moreover have "rev ?x = takeWhile py_isspace (rev ?x) @ dropWhile py_isspace (rev ?x)" by simp
  then have "?x = py_strip s @ rev (takeWhile py_isspace (rev ?x))"
    by (metis py_strip_def rev_append rev_rev_ident)
  ultimately show ?thesis by (metis append_assoc)
qed

lemma py_strip_id:
  assumes "s = [] \<or> (\<not> py_isspace (hd s) \<and> \<not> py_isspace (last s))"
  shows "py_strip s = s"
proof (cases "s = []")
  case False
  with assms have "dropWhile py_isspace s = s" "dropWhile py_isspace (rev s) = rev s"
    by (auto simp: dropWhile_eq_self_iff hd_rev)
  then show ?thesis by (simp add: py_strip_def)
qed (simp add: py_strip_def)

end
