(* ===== verification/Regex_Sub.thy ===== *)
theory Regex_Sub
  imports Prelude
begin

text \<open>
  Python's \<open>re.sub(pattern, repl, string)\<close> as a scanner over the string.
  A pattern is represented by its matcher: \<open>m bol s = Some k\<close> says that the
  pattern, tried at the current position, matches the first \<open>Suc k\<close>
  characters of the rest \<open>s\<close> of the string (the match the regex engine's
  backtracking order selects), and \<open>None\<close> that it does not match there.
  \<open>bol\<close> says whether \<open>^\<close> holds at the position under \<open>re.MULTILINE\<close>:
  at the start of the string or right after a newline of the original string.

  The scanner tries the pattern at each position from left to right; on a match
  it emits the replacement and resumes after the match, otherwise it copies one
  character.  Matches are non-overlapping and searched in the original string,
  so \<open>^\<close> after a match looks at the last matched character.  The three
  patterns of \<open>clean_text\<close> never match the empty string, which is why a
  match always has length \<open>Suc k\<close> and the end of the string is never a
  match position.
\<close>

type_synonym matcher = "bool \<Rightarrow> string \<Rightarrow> nat option"

fun re_sub :: "matcher \<Rightarrow> string \<Rightarrow> bool \<Rightarrow> string \<Rightarrow> string" where
  "re_sub m r bol [] = []"
| "re_sub m r bol (c # cs) =
     (case m bol (c # cs) of
        None \<Rightarrow> c # re_sub m r (c = nl) cs
      | Some k \<Rightarrow> r @ re_sub m r ((c # cs) ! k = nl) (drop k cs))"

text \<open>The pattern matches nowhere in the string (scanning as \<open>re_sub\<close> does).\<close>

fun no_match :: "matcher \<Rightarrow> bool \<Rightarrow> string \<Rightarrow> bool" where
  "no_match m bol [] = True"
| "no_match m bol (c # cs) = (m bol (c # cs) = None \<and> no_match m (c = nl) cs)"

lemma re_sub_no_match [scan_simps]:
  "no_match m bol s \<Longrightarrow> re_sub m r bol s = s"
  by (induction s arbitrary: bol) auto

lemma re_sub_append_nomatch:
  "m bol (c # cs) = None \<Longrightarrow> re_sub m r bol (c # cs) = c # re_sub m r (c = nl) cs"
  by simp

text \<open>
  What the scanner emits is built only from characters of the input and copies of
  the replacement: every output character is an input character or a replacement
  character.
\<close>

lemma set_re_sub: "set (re_sub m r bol s) \<subseteq> set s \<union> set r"
proof (induction m r bol s rule: re_sub.induct)
  case (2 m r bol c cs)
  show ?case
  proof (cases "m bol (c # cs)")
    case None
    with "2.IH"(1) show ?thesis by auto
  next
    case (Some k)
    with "2.IH"(2) [OF Some] show ?thesis by (auto dest: in_set_dropD)
  qed
qed simp

end
