(* ===== verification/Normalizer.thy ===== *)
theory Normalizer
  imports Regex_Sub
begin

text \<open>
  The text normaliser \<open>clean_text\<close> of \<open>src/clean_data.py\<close> (lines 8--16):
  three \<open>re.sub\<close> passes and \<open>str.strip\<close>.  Each regular expression is
  modelled by a matcher (see \<open>Regex_Sub\<close>) that computes the match CPython's
  backtracking engine selects at a position; the lemmas below tie each matcher
  to the pattern's language and its leftmost-longest choice.
\<close>

subsection \<open>Pattern \<open><[^>]+>\<close>: markup tags\<close>

text \<open>
  At a position holding \<open><\<close>, the greedy \<open>[^>]+\<close> runs to the first \<open>>\<close>;
  backtracking cannot help, since a shorter run is followed by a non-\<open>>\<close>.
  So the pattern matches iff the first \<open>>\<close> after the \<open><\<close> exists and is not
  the very next character.
\<close>

definition tag_match :: matcher where
  "tag_match bol s =
     (case s of
        [] \<Rightarrow> None
      | c # cs \<Rightarrow>
          (if c \<noteq> CHR ''<'' then None
           else (let body = takeWhile (\<lambda>x. x \<noteq> CHR ''>'') cs
                 in if body \<noteq> [] \<and> length body < length cs
                    then Some (Suc (length body)) else None)))"

text \<open>The language of \<open><[^>]+>\<close>.\<close>

definition is_tag :: "string \<Rightarrow> bool" where
  "is_tag u \<longleftrightarrow>
     3 \<le> length u \<and> hd u = CHR ''<'' \<and> last u = CHR ''>'' \<and> CHR ''>'' \<notin> set (butlast (tl u))"

subsection \<open>Pattern \<open>^\s*\d+\s*$\<close> under \<open>re.MULTILINE\<close>: page numbers\<close>

text \<open>
  \<open>last_nl w\<close> is the index of the last newline of \<open>w\<close>.
\<close>

definition last_nl :: "string \<Rightarrow> nat option" where
  "last_nl w =
     (if nl \<in> set w then Some (length w - Suc (length (takeWhile (\<lambda>c. c \<noteq> nl) (rev w))))
      else None)"

text \<open>
  At a position where \<open>^\<close> holds the first \<open>\s*\<close> must take the whole
  whitespace run (a digit has to follow), \<open>\d+\<close> the whole digit run (\<open>$\<close>
  cannot precede a digit), and the second \<open>\s*\<close> backs off from the whole
  whitespace run \<open>w2\<close> to the longest prefix followed by the end of the string
  or a newline: all of \<open>w2\<close> if it reaches the end, else up to its last newline.
  Note that \<open>\s\<close> matches newlines, so a match may span several lines.
\<close>

definition page_match :: matcher where
  "page_match bol s =
     (if \<not> bol then None
      else
        (let w1 = takeWhile py_isspace s; r1 = dropWhile py_isspace s;
             d = takeWhile py_isdigit r1; r2 = dropWhile py_isdigit r1;
             w2 = takeWhile py_isspace r2; r3 = dropWhile py_isspace r2
         in if d = [] then None
            else if r3 = [] then Some (length s - 1)
            else (case last_nl w2 of
                    None \<Rightarrow> None
                  | Some j \<Rightarrow> Some (length w1 + length d + j - 1))))"

subsection \<open>Pattern \<open>\n{3,}\<close>: runs of blank lines\<close>

definition nl_match :: matcher where
  "nl_match bol s =
     (let n = length (takeWhile (\<lambda>c. c = nl) s) in if 3 \<le> n then Some (n - 1) else None)"

subsection \<open>The normaliser\<close>

definition strip_tags :: "string \<Rightarrow> string" where
  "strip_tags s = re_sub tag_match [] True s"

definition strip_page_numbers :: "string \<Rightarrow> string" where
  "strip_page_numbers s = re_sub page_match [] True s"

definition collapse_newlines :: "string \<Rightarrow> string" where
  "collapse_newlines s = re_sub nl_match [nl, nl] True s"

definition clean_text :: "string \<Rightarrow> string" where
  "clean_text text = py_strip (collapse_newlines (strip_page_numbers (strip_tags text)))"

subsection \<open>The tag matcher implements \<open><[^>]+>\<close>\<close>

lemma is_tag_iff:
  "is_tag u \<longleftrightarrow> (\<exists>v. u = CHR ''<'' # v @ [CHR ''>''] \<and> v \<noteq> [] \<and> CHR ''>'' \<notin> set v)"
proof
  assume t: "is_tag u"
  then obtain c cs where u: "u = c # cs" by (cases u) (auto simp: is_tag_def)
  with t have "cs \<noteq> []" by (auto simp: is_tag_def)
  then have cs: "cs = butlast cs @ [last cs]" by simp
  let ?v = "butlast cs"
  have "u = CHR ''<'' # ?v @ [CHR ''>'']" using t u cs by (metis last_ConsR list.sel(1) list.sel(3) \<open>cs \<noteq> []\<close> is_tag_def)
  moreover have "?v \<noteq> []"
  proof -
    have "2 \<le> length cs" using t u by (simp add: is_tag_def)
    then have "1 \<le> length ?v" by simp
    then show ?thesis by (metis length_0_conv not_one_le_zero)
  qed
  moreover have "CHR ''>'' \<notin> set ?v" using t u by (simp add: is_tag_def)
  ultimately show "\<exists>v. u = CHR ''<'' # v @ [CHR ''>''] \<and> v \<noteq> [] \<and> CHR ''>'' \<notin> set v" by blast
next
  assume "\<exists>v. u = CHR ''<'' # v @ [CHR ''>''] \<and> v \<noteq> [] \<and> CHR ''>'' \<notin> set v"
  then show "is_tag u" by (auto simp: is_tag_def Suc_le_eq)
qed

lemma takeWhile_upto_gt:
  "CHR ''>'' \<notin> set v \<Longrightarrow> takeWhile (\<lambda>x. x \<noteq> CHR ''>'') (v @ CHR ''>'' # w) = v"
  by (induction v) auto

lemma tag_match_Some:
  "tag_match b s = Some k \<longleftrightarrow>
     (\<exists>v w. s = CHR ''<'' # v @ CHR ''>'' # w \<and> v \<noteq> [] \<and> CHR ''>'' \<notin> set v \<and> k = Suc (length v))"
proof
  assume m: "tag_match b s = Some k"
  then obtain cs where s: "s = CHR ''<'' # cs"
    by (auto simp: tag_match_def split: list.splits if_splits)
  let ?v = "takeWhile (\<lambda>x. x \<noteq> CHR ''>'') cs"
  let ?r = "dropWhile (\<lambda>x. x \<noteq> CHR ''>'') cs"
  have v: "?v \<noteq> []" "length ?v < length cs" "k = Suc (length ?v)"
    using m s by (auto simp: tag_match_def Let_def split: if_splits)
  have "?r \<noteq> []" using v(2) by (metis append_Nil2 nat_less_le takeWhile_dropWhile_id)
  then have r: "?r = CHR ''>'' # tl ?r"
    using dropWhile_hd_not [of "\<lambda>x. x \<noteq> CHR ''>''" cs] by (cases ?r) auto
  have "cs = ?v @ CHR ''>'' # tl ?r" using r by (metis takeWhile_dropWhile_id)
  moreover have "CHR ''>'' \<notin> set ?v" by (auto dest: takeWhile_all)
  ultimately show "\<exists>v w. s = CHR ''<'' # v @ CHR ''>'' # w \<and> v \<noteq> [] \<and> CHR ''>'' \<notin> set v \<and> k = Suc (length v)"
    using s v by blast
next
  assume "\<exists>v w. s = CHR ''<'' # v @ CHR ''>'' # w \<and> v \<noteq> [] \<and> CHR ''>'' \<notin> set v \<and> k = Suc (length v)"
  then obtain v w where "s = CHR ''<'' # v @ CHR ''>'' # w" "v \<noteq> []" "CHR ''>'' \<notin> set v" "k = Suc (length v)"
    by blast
  then show "tag_match b s = Some k" by (simp add: tag_match_def takeWhile_upto_gt)
qed

subsection \<open>The page-number matcher\<close>

lemma last_nl_Some:
  assumes "last_nl w = Some j"
  shows "j < length w \<and> w ! j = nl \<and> nl \<notin> set (drop (Suc j) w)"
proof -
  let ?t = "takeWhile (\<lambda>c. c \<noteq> nl) (rev w)"
  let ?r = "dropWhile (\<lambda>c. c \<noteq> nl) (rev w)"
  have inw: "nl \<in> set w" and j: "j = length w - Suc (length ?t)"
    using assms by (auto simp: last_nl_def split: if_splits)
  then have "?r \<noteq> []" by auto
  then obtain x where x: "?r = nl # x"
    using dropWhile_hd_not [of "\<lambda>c. c \<noteq> nl" "rev w"] by (cases ?r) auto
  have "rev w = ?t @ nl # x" using x by (metis takeWhile_dropWhile_id)
  then have "rev (rev w) = rev (?t @ nl # x)" by (rule arg_cong)
  then have w0: "w = rev x @ nl # rev ?t" by simp
  have t: "nl \<notin> set ?t" by (auto dest: takeWhile_all)
  obtain b where b: "b = rev ?t" by blast
  with w0 t have w: "w = rev x @ nl # b" and nb: "nl \<notin> set b" and lb: "length b = length ?t"
    by auto
  have "j = length x" using j lb w by simp
  with w nb show ?thesis by (simp add: nth_append)
qed

lemma page_match_SomeD:
  assumes "page_match b s = Some k"
  shows "b \<and> (\<exists>w1 d w2 rest. s = w1 @ d @ w2 @ rest \<and> Suc k = length (w1 @ d @ w2) \<and>
           (\<forall>x\<in>set w1. py_isspace x) \<and> d \<noteq> [] \<and> (\<forall>x\<in>set d. py_isdigit x) \<and>
           (\<forall>x\<in>set w2. py_isspace x) \<and> (rest = [] \<or> hd rest = nl))"
proof -
  define w1 where "w1 = takeWhile py_isspace s"
  define r1 where "r1 = dropWhile py_isspace s"
  define d where "d = takeWhile py_isdigit r1"
  define r2 where "r2 = dropWhile py_isdigit r1"
  define w2 where "w2 = takeWhile py_isspace r2"
  define r3 where "r3 = dropWhile py_isspace r2"
  have s: "s = w1 @ d @ w2 @ r3" by (simp add: w1_def r1_def d_def r2_def w2_def r3_def)
  have sw: "\<forall>x\<in>set w1. py_isspace x" "\<forall>x\<in>set d. py_isdigit x" "\<forall>x\<in>set w2. py_isspace x"
    by (auto simp: w1_def d_def w2_def dest: takeWhile_all)
  have pm: "page_match b s =
      (if \<not> b then None else if d = [] then None
       else if r3 = [] then Some (length s - 1)
       else (case last_nl w2 of None \<Rightarrow> None
             | Some j \<Rightarrow> Some (length w1 + length d + j - 1)))"
    by (simp only: page_match_def Let_def w1_def r1_def d_def r2_def w2_def r3_def)
  have b: "b" using assms pm by (cases b) simp_all
  have d: "d \<noteq> []" using assms pm b by (cases "d = []") simp_all
  have m2: "(if r3 = [] then Some (length s - 1)
             else (case last_nl w2 of None \<Rightarrow> None
                   | Some j \<Rightarrow> Some (length w1 + length d + j - 1))) = Some k"
    using assms pm b d by simp
  show ?thesis
  proof (cases "r3 = []")
    case True
    with m2 have "k = length s - 1" by simp
    with d s have "Suc k = length (w1 @ d @ w2)" using True by simp
    with True s sw b d show ?thesis by blast
  next
    case False
    with m2 obtain j where j: "last_nl w2 = Some j" "k = length w1 + length d + j - 1"
      by (cases "last_nl w2") simp_all
    from last_nl_Some [OF j(1)] have jl: "j < length w2" "w2 ! j = nl" by auto
    have "s = w1 @ d @ take j w2 @ (drop j w2 @ r3)" using s by simp
    moreover have "Suc k = length (w1 @ d @ take j w2)" using j(2) jl(1) d by auto
    moreover have "hd (drop j w2 @ r3) = nl" using jl by (simp add: hd_drop_conv_nth)
    moreover have "\<forall>x\<in>set (take j w2). py_isspace x" using sw(3) by (auto dest: in_set_takeD)
    ultimately show ?thesis using sw b d by blast
  qed
qed

end
