(* ===== verification/Normal_Form.thy ===== *)
theory Normal_Form
  imports Normalizer
begin

text \<open>
  The normal form that \<open>clean_text\<close> establishes, as predicates on strings,
  and the facts about each pass of \<open>clean_text\<close> that establish or keep them:
  \<^item> \<open>tag_free\<close>: no substring is in the language of \<open><[^>]+>\<close>;
  \<^item> \<open>nl3_free\<close>: no three consecutive newlines;
  \<^item> \<open>page_free\<close>: no line (text between newlines) is a page-number line,
    computed by the line automaton \<open>pstep\<close>;
  \<^item> \<open>drops P t s\<close>: \<open>t\<close> is \<open>s\<close> with some characters satisfying \<open>P\<close>
    deleted; the last three passes only delete whitespace and digits, which keeps
    \<open>tag_free\<close>.
\<close>

fun tag_free :: "string \<Rightarrow> bool" where
  "tag_free [] = True"
| "tag_free (c # s) =
     (tag_free s \<and> (c = CHR ''<'' \<and> CHR ''>'' \<in> set s \<longrightarrow> hd s = CHR ''>''))"

inductive drops :: "(char \<Rightarrow> bool) \<Rightarrow> string \<Rightarrow> string \<Rightarrow> bool" where
  drops_Nil: "drops P [] []"
| drops_keep: "drops P t s \<Longrightarrow> drops P (c # t) (c # s)"
| drops_del: "drops P t s \<Longrightarrow> P c \<Longrightarrow> drops P t (c # s)"

definition nl_lead :: "string \<Rightarrow> nat" where
  "nl_lead s = length (takeWhile (\<lambda>c. c = nl) s)"

fun nl3_free :: "string \<Rightarrow> bool" where
  "nl3_free [] = True"
| "nl3_free (c # s) = (nl3_free s \<and> \<not> (c = nl \<and> 2 \<le> nl_lead s))"

definition stripped :: "string \<Rightarrow> bool" where
  "stripped s \<longleftrightarrow> s = [] \<or> (\<not> py_isspace (hd s) \<and> \<not> py_isspace (last s))"

inductive_cases drops_NilE: "drops P t []"
inductive_cases drops_ConsE: "drops P t (c # s)"

subsection \<open>Deleting characters\<close>

lemma drops_refl [intro]: "drops P s s"
  by (induction s) (auto intro: drops.intros)

lemma drops_all: "\<forall>x\<in>set s. P x \<Longrightarrow> drops P [] s"
  by (induction s) (auto intro: drops.intros)

lemma drops_append: "drops P t1 s1 \<Longrightarrow> drops P t2 s2 \<Longrightarrow> drops P (t1 @ t2) (s1 @ s2)"
  by (induction rule: drops.induct) (auto intro: drops.intros)

lemma drops_set: "drops P t s \<Longrightarrow> set t \<subseteq> set s"
  by (induction rule: drops.induct) auto

lemma drops_keep_hd:
  "drops P t (c # s) \<Longrightarrow> \<not> P c \<Longrightarrow> \<exists>t'. t = c # t' \<and> drops P t' s"
  by (erule drops_ConsE) auto

lemma drops_trans: "drops P t s \<Longrightarrow> drops P u t \<Longrightarrow> drops P u s"
proof (induction t s arbitrary: u rule: drops.induct)
  case (drops_Nil P)
  then show ?case by (auto elim: drops_NilE intro: drops.intros)
next
  case (drops_keep P t s c)
  from drops_keep.prems show ?case
    by (rule drops_ConsE) (auto intro: drops.intros drops_keep.IH)
next
  case (drops_del P t s c)
  then show ?case by (auto intro: drops.intros)
qed

lemma drops_rev: "drops P t s \<Longrightarrow> drops P (rev t) (rev s)"
proof (induction rule: drops.induct)
  case (drops_keep P t s c)
  then show ?case using drops_append [of P "rev t" "rev s" "[c]" "[c]"] by auto
next
  case (drops_del P t s c)
  then show ?case using drops_append [of P "rev t" "rev s" "[]" "[c]"] drops_all [of "[c]" P] by auto
qed (auto intro: drops.intros)

lemma drops_dropWhile: "drops P (dropWhile P s) s"
  by (induction s) (auto intro: drops.intros)

lemma drops_py_strip: "drops py_isspace (py_strip s) s"
proof -
  have "drops py_isspace (rev (dropWhile py_isspace (rev (dropWhile py_isspace s))))
          (rev (rev (dropWhile py_isspace s)))"
    by (rule drops_rev) (rule drops_dropWhile)
  then show ?thesis
    unfolding py_strip_def using drops_dropWhile drops_trans by fastforce
qed

lemma re_sub_drops:
  assumes "\<And>b s k. m b s = Some k \<Longrightarrow> drops P r (take (Suc k) s)"
  shows "drops P (re_sub m r bol s) s"
  using assms
proof (induction m r bol s rule: re_sub.induct)
  case (2 m r bol c cs)
  show ?case
  proof (cases "m bol (c # cs)")
    case None
    with "2.IH"(1) "2.prems" show ?thesis by (auto intro: drops.intros)
  next
    case (Some k)
    then have "drops P (r @ re_sub m r ((c # cs) ! k = nl) (drop k cs))
                 (take (Suc k) (c # cs) @ drop (Suc k) (c # cs))"
      using "2.prems" [OF Some] "2.IH"(2) [OF Some "2.prems"] by (intro drops_append) auto
    with Some show ?thesis by simp
  qed
qed (auto intro: drops.intros)

subsection \<open>Tag freedom\<close>

lemma length_takeWhile_less_iff:
  "length (takeWhile P s) < length s \<longleftrightarrow> (\<exists>x\<in>set s. \<not> P x)"
  by (induction s) auto

lemma tag_match_Cons_None:
  "tag_match b (c # s) = None \<longleftrightarrow>
     (c = CHR ''<'' \<and> CHR ''>'' \<in> set s \<longrightarrow> hd s = CHR ''>'')"
  by (cases s) (auto simp: tag_match_def Let_def length_takeWhile_less_iff)

lemma no_match_tag_free: "no_match tag_match b s \<longleftrightarrow> tag_free s"
proof (induction s arbitrary: b)
  case (Cons c s)
  then show ?case
    using tag_match_Cons_None [of b c s] by auto
qed simp

lemma tag_free_iff: "tag_free s \<longleftrightarrow> \<not> (\<exists>u v w. s = u @ v @ w \<and> is_tag v)"
proof (induction s)
  case Nil
  then show ?case by (auto simp: is_tag_def)
next
  case (Cons c s)
  have here: "(\<exists>v w. c # s = v @ w \<and> is_tag v) \<longleftrightarrow> tag_match True (c # s) \<noteq> None"
  proof
    assume "\<exists>v w. c # s = v @ w \<and> is_tag v"
    then obtain v w u where "c # s = (CHR ''<'' # u @ [CHR ''>'']) @ w" "u \<noteq> []" "CHR ''>'' \<notin> set u"
      by (auto simp: is_tag_iff)
    then show "tag_match True (c # s) \<noteq> None"
      using tag_match_Some [of True "c # s" "Suc (length u)"] by auto
  next
    assume "tag_match True (c # s) \<noteq> None"
    then obtain k where "tag_match True (c # s) = Some k" by blast
    then obtain u w where "c # s = CHR ''<'' # u @ CHR ''>'' # w" "u \<noteq> []" "CHR ''>'' \<notin> set u"
      by (auto simp: tag_match_Some)
    then show "\<exists>v w. c # s = v @ w \<and> is_tag v"
      by (intro exI [of _ "CHR ''<'' # u @ [CHR ''>'']"] exI) (auto simp: is_tag_iff)
  qed
  show ?case
    using Cons.IH here ex_infix_Cons [of c s is_tag] tag_match_Cons_None [of True c s] by auto
qed

lemma tag_free_re_sub:
  "m = tag_match \<Longrightarrow> r = [] \<Longrightarrow> tag_free (re_sub m r b s)"
proof (induction m r b s rule: re_sub.induct)
  case (2 m r bol c cs)
  show ?case
  proof (cases "tag_match bol (c # cs)")
    case None
    let ?o = "re_sub tag_match [] (c = nl) cs"
    have hd: "CHR ''>'' \<in> set ?o \<Longrightarrow> c = CHR ''<'' \<Longrightarrow> hd ?o = CHR ''>''"
    proof -
      assume "CHR ''>'' \<in> set ?o" "c = CHR ''<''"
      then have "CHR ''>'' \<in> set cs" using set_re_sub [of tag_match "[]" "c = nl" cs] by auto
      with None \<open>c = CHR ''<''\<close> obtain cs' where "cs = CHR ''>'' # cs'"
        by (cases cs) (auto simp: tag_match_Cons_None)
      then show "hd ?o = CHR ''>''" by (simp add: tag_match_def)
    qed
    with None "2.IH"(1) "2.prems" show ?thesis by auto
  next
    case (Some k)
    with "2.IH"(2) "2.prems" show ?thesis by simp
  qed
qed simp

lemma drops_tag_free:
  "drops P t s \<Longrightarrow> \<not> P CHR ''>'' \<Longrightarrow> tag_free s \<Longrightarrow> tag_free t"
proof (induction rule: drops.induct)
  case (drops_keep P t s c)
  have "hd t = CHR ''>''" if "c = CHR ''<''" "CHR ''>'' \<in> set t"
  proof -
    from that drops_keep.hyps drops_keep.prems have "hd s = CHR ''>''" "s \<noteq> []"
      by (auto dest: drops_set)
    then obtain s' where "s = CHR ''>'' # s'" by (cases s) auto
    with drops_keep.hyps drops_keep.prems show ?thesis by (auto dest: drops_keep_hd)
  qed
  with drops_keep show ?case by auto
qed auto

subsection \<open>Runs of newlines\<close>

lemma nl_match_None: "nl_match b s = None \<longleftrightarrow> nl_lead s < 3"
  by (simp add: nl_match_def nl_lead_def Let_def)

lemma nl_lead_Cons: "nl_lead (c # s) = (if c = nl then Suc (nl_lead s) else 0)"
  by (simp add: nl_lead_def)

lemma nl_lead_drop: "nl_lead (drop (nl_lead s) s) = 0"
  by (induction s) (auto simp: nl_lead_Cons, simp add: nl_lead_def)

lemma nl_match_Some: "nl_match b s = Some k \<Longrightarrow> Suc k = nl_lead s \<and> 3 \<le> nl_lead s"
  by (auto simp: nl_match_def nl_lead_def Let_def split: if_splits)

lemma nl_lead_re_sub:
  "m = nl_match \<Longrightarrow> r = [nl, nl] \<Longrightarrow> nl_lead (re_sub m r b s) = min 2 (nl_lead s)"
proof (induction m r b s rule: re_sub.induct)
  case (2 m r bol c cs)
  show ?case
  proof (cases "nl_match bol (c # cs)")
    case None
    then have lt: "nl_lead (c # cs) < 3" by (simp add: nl_match_None)
    from None "2.prems" have "re_sub m r bol (c # cs) = c # re_sub nl_match [nl, nl] (c = nl) cs"
      by simp
    with "2.IH"(1) [OF _ "2.prems"] None "2.prems" lt show ?thesis by (auto simp: nl_lead_Cons)
  next
    case (Some k)
    then have k: "Suc k = nl_lead (c # cs)" "3 \<le> nl_lead (c # cs)" by (auto dest: nl_match_Some)
    have "drop k cs = drop (nl_lead (c # cs)) (c # cs)" using k(1) by (metis drop_Suc_Cons)
    then have "nl_lead (drop k cs) = 0" by (simp add: nl_lead_drop)
    with Some "2.IH"(2) [OF _ "2.prems"] "2.prems" k(2) show ?thesis by (simp add: nl_lead_Cons)
  qed
qed (simp add: nl_lead_def)

lemma nl3_free_re_sub:
  "m = nl_match \<Longrightarrow> r = [nl, nl] \<Longrightarrow> nl3_free (re_sub m r b s)"
proof (induction m r b s rule: re_sub.induct)
  case (2 m r bol c cs)
  show ?case
  proof (cases "nl_match bol (c # cs)")
    case None
    then have lt: "nl_lead (c # cs) < 3" by (simp add: nl_match_None)
    from None "2.prems" have "re_sub m r bol (c # cs) = c # re_sub nl_match [nl, nl] (c = nl) cs"
      by simp
    with "2.IH"(1) [OF _ "2.prems"] None "2.prems" lt show ?thesis
      by (auto simp: nl_lead_Cons nl_lead_re_sub)
  next
    case (Some k)
    then have k: "Suc k = nl_lead (c # cs)" by (auto dest: nl_match_Some)
    have "drop k cs = drop (nl_lead (c # cs)) (c # cs)" using k by (metis drop_Suc_Cons)
    then have "nl_lead (drop k cs) = 0" by (simp add: nl_lead_drop)
    with Some "2.IH"(2) [OF _ "2.prems"] "2.prems" show ?thesis by (simp add: nl_lead_Cons nl_lead_re_sub)
  qed
qed simp

lemma nl_lead_Nil [simp]: "nl_lead [] = 0"
  by (simp add: nl_lead_def)

lemma nl_lead_ge2: "2 \<le> nl_lead s \<longleftrightarrow> (\<exists>w. s = nl # nl # w)"
proof (cases s)
  case (Cons x t)
  then show ?thesis by (cases t) (auto simp: nl_lead_Cons)
qed simp

lemma nl3_free_iff: "nl3_free s \<longleftrightarrow> \<not> (\<exists>u w. s = u @ [nl, nl, nl] @ w)"
proof (induction s)
  case (Cons c s)
  then show ?case
    using ex_infix_fixed_Cons [of c s "[nl, nl, nl]"] nl_lead_ge2 [of s] by auto
qed simp

lemma no_match_nl3_free: "nl3_free s \<Longrightarrow> no_match nl_match b s"
proof (induction s arbitrary: b)
  case (Cons c s)
  then show ?case by (auto simp: nl_match_None nl_lead_Cons)
qed simp

subsection \<open>What each pass deletes\<close>

lemma page_match_drops:
  "page_match b s = Some k \<Longrightarrow> drops (\<lambda>c. py_isspace c \<or> py_isdigit c) [] (take (Suc k) s)"
  by (drule page_match_SomeD) (auto intro!: drops_all)

lemma nl_match_drops:
  assumes "nl_match b s = Some k"
  shows "drops (\<lambda>c. c = nl) [nl, nl] (take (Suc k) s)"
proof -
  from nl_match_Some [OF assms] have k: "Suc k = nl_lead s" "3 \<le> nl_lead s" by auto
  let ?t = "take (Suc k) s"
  have t: "?t = takeWhile (\<lambda>c. c = nl) s"
    using k(1) unfolding nl_lead_def by (metis takeWhile_eq_take)
  then have all: "\<forall>x\<in>set ?t. x = nl" by (auto dest: takeWhile_all)
  have "3 \<le> length ?t" using t k by (simp add: nl_lead_def)
  then obtain a b r where "?t = a # b # r" by (cases ?t rule: remdups_adj.cases) auto
  with all show ?thesis by (auto intro!: drops.intros drops_all)
qed

lemma drops_strip_page_numbers:
  "drops (\<lambda>c. py_isspace c \<or> py_isdigit c) (strip_page_numbers s) s"
  unfolding strip_page_numbers_def by (rule re_sub_drops) (rule page_match_drops)

lemma drops_collapse_newlines: "drops (\<lambda>c. c = nl) (collapse_newlines s) s"
  unfolding collapse_newlines_def by (rule re_sub_drops) (rule nl_match_drops)

lemma tag_free_clean_text: "tag_free (clean_text s)"
proof -
  have "tag_free (strip_tags s)" unfolding strip_tags_def by (rule tag_free_re_sub) simp_all
  then have "tag_free (strip_page_numbers (strip_tags s))"
    using drops_strip_page_numbers by (rule drops_tag_free [rotated 2]) simp
  then have "tag_free (collapse_newlines (strip_page_numbers (strip_tags s)))"
    using drops_collapse_newlines by (rule drops_tag_free [rotated 2]) simp
  then show ?thesis
    unfolding clean_text_def using drops_py_strip by (rule drops_tag_free [rotated 2]) simp
qed

lemma nl3_free_clean_text: "nl3_free (clean_text s)"
proof -
  have n: "nl3_free (collapse_newlines (strip_page_numbers (strip_tags s)))"
    unfolding collapse_newlines_def by (rule nl3_free_re_sub) simp_all
  obtain a b where "collapse_newlines (strip_page_numbers (strip_tags s)) = a @ clean_text s @ b"
    unfolding clean_text_def using py_strip_infix by blast
  with n show ?thesis unfolding nl3_free_iff by (metis append_assoc)
qed

lemma stripped_clean_text: "stripped (clean_text s)"
  unfolding stripped_def clean_text_def using py_strip_ends by blast

end
