(* ===== verification/Page_Lines.thy ===== *)
theory Page_Lines
  imports Normal_Form
begin

text \<open>
  Page-number lines.  A line (the text between two newlines, as
  \<open>str.split('\n')\<close> gives it) is a page-number line when it is in the
  language of \<open>\s*\d+\s*\<close>; the automaton \<open>pstep\<close> reads a line and
  \<open>is_page_line\<close> accepts it in the states \<open>Digits\<close> and \<open>Trail\<close>.
  \<open>page_free_from q\<close> checks every line of a string, the first one continued
  from state \<open>q\<close>; \<open>hits q\<close> says that the page-number pattern, started
  at a line start, succeeds: the blank lines it may skip are followed by a
  page-number line.  The lemmas tie the matcher \<open>page_match\<close> to the
  automaton, show that the page-number pass leaves no match behind, and that the
  later passes keep the lines free of page numbers.
\<close>

datatype line_state = Lead | Digits | Trail | Other

fun pstep :: "line_state \<Rightarrow> char \<Rightarrow> line_state" where
  "pstep Lead c = (if py_isspace c then Lead else if py_isdigit c then Digits else Other)"
| "pstep Digits c = (if py_isdigit c then Digits else if py_isspace c then Trail else Other)"
| "pstep Trail c = (if py_isspace c then Trail else Other)"
| "pstep Other c = Other"

definition is_page_line :: "string \<Rightarrow> bool" where
  "is_page_line l \<longleftrightarrow> foldl pstep Lead l \<in> {Digits, Trail}"

fun page_free_from :: "line_state \<Rightarrow> string \<Rightarrow> bool" where
  "page_free_from q [] = (q \<notin> {Digits, Trail})"
| "page_free_from q (c # s) =
     (if c = nl then q \<notin> {Digits, Trail} \<and> page_free_from Lead s
      else page_free_from (pstep q c) s)"

fun hits :: "line_state \<Rightarrow> string \<Rightarrow> bool" where
  "hits q [] = (q \<in> {Digits, Trail})"
| "hits q (c # s) =
     (if c = nl then q \<in> {Digits, Trail} \<or> (q = Lead \<and> hits Lead s)
      else pstep q c \<noteq> Other \<and> hits (pstep q c) s)"

abbreviation sp_line :: "char \<Rightarrow> bool" where
  "sp_line \<equiv> \<lambda>c. py_isspace c \<and> c \<noteq> nl"

text \<open>\<open>str.split('\n')\<close>.\<close>

fun lines_of :: "string \<Rightarrow> string list" where
  "lines_of [] = [[]]"
| "lines_of (c # s) =
     (if c = nl then [] # lines_of s else (c # hd (lines_of s)) # tl (lines_of s))"

subsection \<open>The automaton\<close>

lemma foldl_pstep_Other [simp]: "foldl pstep Other l = Other"
  by (induction l) auto

lemma pstep_nl [simp]: "pstep q nl = (if q = Lead then Lead else if q = Other then Other else Trail)"
  by (cases q) auto

lemma hits_Trail:
  "hits Trail s \<longleftrightarrow> dropWhile sp_line s = [] \<or> hd (dropWhile sp_line s) = nl"
proof (induction s)
  case (Cons c s)
  then show ?case by (cases "c = nl"; cases "py_isspace c") simp_all
qed simp

lemma hits_Digits:
  "hits Digits s \<longleftrightarrow>
     dropWhile sp_line (dropWhile py_isdigit s) = [] \<or> hd (dropWhile sp_line (dropWhile py_isdigit s)) = nl"
proof (induction s)
  case (Cons c s)
  then show ?case
    by (cases "c = nl"; cases "py_isspace c"; cases "py_isdigit c") (simp_all add: hits_Trail)
qed simp

lemma sp_block_iff:
  "dropWhile py_isspace r = [] \<or> nl \<in> set (takeWhile py_isspace r) \<longleftrightarrow>
   dropWhile sp_line r = [] \<or> hd (dropWhile sp_line r) = nl"
proof (induction r)
  case (Cons c r)
  then show ?case by (cases "c = nl"; cases "py_isspace c") simp_all
qed simp

subsection \<open>The matcher and the automaton\<close>

lemma page_match_False [simp]: "page_match False s = None"
  by (simp add: page_match_def)

lemma page_match_space_Cons:
  assumes "py_isspace c"
  shows "page_match True (c # s) = map_option Suc (page_match True s)"
proof -
  define r1 where "r1 = dropWhile py_isspace s"
  define d where "d = takeWhile py_isdigit r1"
  define r2 where "r2 = dropWhile py_isdigit r1"
  define w2 where "w2 = takeWhile py_isspace r2"
  define r3 where "r3 = dropWhile py_isspace r2"
  define n where "n = length (takeWhile py_isspace s)"
  have L: "page_match True (c # s) =
      (if d = [] then None else if r3 = [] then Some (length s)
       else (case last_nl w2 of None \<Rightarrow> None | Some j \<Rightarrow> Some (Suc n + length d + j - 1)))"
    using assms by (simp only: page_match_def Let_def r1_def d_def r2_def w2_def r3_def n_def
        takeWhile.simps dropWhile.simps if_True if_False length_Cons not_True_eq_False simp_thms diff_Suc_1)
  have R: "page_match True s =
      (if d = [] then None else if r3 = [] then Some (length s - 1)
       else (case last_nl w2 of None \<Rightarrow> None | Some j \<Rightarrow> Some (n + length d + j - 1)))"
    by (simp only: page_match_def Let_def r1_def d_def r2_def w2_def r3_def n_def
        not_True_eq_False simp_thms if_True if_False)
  show ?thesis
  proof (cases "d = []")
    case False
    then have "s \<noteq> []" by (auto simp: d_def r1_def)
    with False show ?thesis unfolding L R by (cases "r3 = []"; cases "last_nl w2") auto
  qed (simp add: L R)
qed

lemma page_match_digit_Cons:
  assumes "py_isdigit c"
  shows "page_match True (c # s) \<noteq> None \<longleftrightarrow>
     dropWhile py_isspace (dropWhile py_isdigit s) = [] \<or>
     nl \<in> set (takeWhile py_isspace (dropWhile py_isdigit s))"
proof -
  define w2 where "w2 = takeWhile py_isspace (dropWhile py_isdigit s)"
  define r3 where "r3 = dropWhile py_isspace (dropWhile py_isdigit s)"
  have ns: "\<not> py_isspace c" using assms by simp
  have td: "takeWhile py_isdigit (c # s) = c # takeWhile py_isdigit s" using assms by simp
  have "page_match True (c # s) =
      (if r3 = [] then Some (length s)
       else (case last_nl w2 of None \<Rightarrow> None
             | Some j \<Rightarrow> Some (Suc (length (takeWhile py_isdigit s)) + j - 1)))"
    using assms ns by (simp add: page_match_def Let_def w2_def r3_def td cong: option.case_cong)
  moreover have "last_nl w2 \<noteq> None \<longleftrightarrow> nl \<in> set w2" by (simp add: last_nl_def)
  ultimately show ?thesis
    unfolding w2_def [symmetric] r3_def [symmetric]
    by (cases "last_nl w2") auto
qed

lemma page_match_other_Cons:
  "\<not> py_isspace c \<Longrightarrow> \<not> py_isdigit c \<Longrightarrow> page_match b (c # s) = None"
  by (simp add: page_match_def)

lemma page_match_hits: "page_match True s \<noteq> None \<longleftrightarrow> hits Lead s"
proof (induction s)
  case Nil
  then show ?case by (simp add: page_match_def)
next
  case (Cons c s)
  consider (sp) "py_isspace c" | (dg) "py_isdigit c" | (ot) "\<not> py_isspace c" "\<not> py_isdigit c"
    by blast
  then show ?case
  proof cases
    case sp
    with Cons.IH show ?thesis by (auto simp: page_match_space_Cons)
  next
    case dg
    then have "c \<noteq> nl" by auto
    with dg have "hits Lead (c # s) = hits Digits s" by simp
    with page_match_digit_Cons [OF dg, of s] show ?thesis
      by (simp only: sp_block_iff hits_Digits)
  next
    case ot
    then show ?thesis by (auto simp: page_match_other_Cons)
  qed
qed

subsection \<open>Scanning for page numbers and checking lines agree\<close>

lemma no_match_page_False:
  "no_match page_match False t \<longleftrightarrow>
     (case dropWhile (\<lambda>c. c \<noteq> nl) t of [] \<Rightarrow> True | _ # r \<Rightarrow> no_match page_match True r)"
  by (induction t) auto

lemma no_match_page_True:
  "no_match page_match True t \<longleftrightarrow> page_match True t = None \<and> no_match page_match False t"
  by (cases t) (auto simp: page_match_def)

lemma page_free_from_split:
  "page_free_from q t \<longleftrightarrow>
     foldl pstep q (takeWhile (\<lambda>c. c \<noteq> nl) t) \<notin> {Digits, Trail} \<and>
     (case dropWhile (\<lambda>c. c \<noteq> nl) t of [] \<Rightarrow> True | _ # r \<Rightarrow> page_free_from Lead r)"
  by (induction t arbitrary: q) auto

lemma page_free_not_hits: "page_free_from q s \<Longrightarrow> \<not> hits q s"
  by (induction s arbitrary: q) (auto split: if_splits)

lemma first_line_hits:
  "foldl pstep q (takeWhile (\<lambda>c. c \<noteq> nl) t) \<in> {Digits, Trail} \<Longrightarrow> hits q t"
proof (induction t arbitrary: q)
  case (Cons c t)
  show ?case
  proof (cases "c = nl")
    case False
    with Cons.prems have "foldl pstep (pstep q c) (takeWhile (\<lambda>c. c \<noteq> nl) t) \<in> {Digits, Trail}"
      by simp
    moreover then have "pstep q c \<noteq> Other" by auto
    ultimately show ?thesis using False Cons.IH by simp
  qed (use Cons.prems in auto)
qed simp

lemma no_match_page_free: "no_match page_match True t \<longleftrightarrow> page_free_from Lead t"
proof (induction "length t" arbitrary: t rule: less_induct)
  case less
  let ?rest = "dropWhile (\<lambda>c. c \<noteq> nl) t"
  let ?F = "foldl pstep Lead (takeWhile (\<lambda>c. c \<noteq> nl) t) \<notin> {Digits, Trail}"
  let ?NR = "case ?rest of [] \<Rightarrow> True | _ # r \<Rightarrow> no_match page_match True r"
  let ?PR = "case ?rest of [] \<Rightarrow> True | _ # r \<Rightarrow> page_free_from Lead r"
  have rest: "?NR \<longleftrightarrow> ?PR"
  proof (cases ?rest)
    case (Cons x r)
    have "length (x # r) \<le> length t" using Cons length_dropWhile_le [of "\<lambda>c. c \<noteq> nl" t]
      by simp
    then have "length r < length t" by simp
    with Cons less show ?thesis by simp
  qed (simp only: list.case)
  have A: "no_match page_match True t \<longleftrightarrow> \<not> hits Lead t \<and> ?NR"
    by (simp add: no_match_page_True no_match_page_False flip: page_match_hits)
  have C: "page_free_from Lead t \<longleftrightarrow> ?F \<and> ?PR" by (rule page_free_from_split)
  show ?case
  proof
    assume "no_match page_match True t"
    with A have nh: "\<not> hits Lead t" and "?NR" by simp_all
    then have "?PR" using rest by simp
    moreover have "?F" using nh first_line_hits [of Lead t] by blast
    ultimately show "page_free_from Lead t" using C by simp
  next
    assume pf: "page_free_from Lead t"
    with C rest have "?NR" by simp
    moreover have "\<not> hits Lead t" using pf by (rule page_free_not_hits)
    ultimately show "no_match page_match True t" using A by simp
  qed
qed

subsection \<open>The page-number pass leaves no match\<close>

lemma re_sub_page_copy:
  "nl \<notin> set q \<Longrightarrow> re_sub page_match [] False (q @ y) = q @ re_sub page_match [] False y"
  by (induction q) auto

lemma page_match_None_re_sub:
  "page_match True s = None \<Longrightarrow> page_match True (re_sub page_match [] b s) = None"
proof (induction s arbitrary: b)
  case (Cons c cs)
  have out: "re_sub page_match [] b (c # cs) = c # re_sub page_match [] (c = nl) cs"
    using Cons.prems by (cases b) auto
  consider (sp) "py_isspace c" | (dg) "py_isdigit c" | (ot) "\<not> py_isspace c" "\<not> py_isdigit c"
    by blast
  then show ?case
  proof cases
    case sp
    with Cons.prems have "page_match True cs = None" by (simp add: page_match_space_Cons)
    with Cons.IH sp have "page_match True (c # re_sub page_match [] (c = nl) cs) = None"
      by (simp add: page_match_space_Cons)
    then show ?thesis by (simp only: out)
  next
    case dg
    define D where "D = takeWhile py_isdigit cs"
    define r2 where "r2 = dropWhile py_isdigit cs"
    define w2 where "w2 = takeWhile py_isspace r2"
    define r3 where "r3 = dropWhile py_isspace r2"
    have no: "\<not> (r3 = [] \<or> nl \<in> set w2)"
      using Cons.prems page_match_digit_Cons [OF dg, of cs] by (simp add: r2_def w2_def r3_def)
    then obtain x r where r3: "r3 = x # r" by (cases r3) auto
    have e: "dropWhile py_isspace r2 = x # r" using r3 by (simp add: r3_def)
    have x: "\<not> py_isspace x" using dropWhile_hd_not [of py_isspace r2] unfolding e by simp
    have xd: "\<not> py_isdigit x" if w: "w2 = []"
    proof -
      have "r2 = takeWhile py_isspace r2 @ dropWhile py_isspace r2" by simp
      with w e have "r2 = x # r" by (simp add: w2_def)
      then have e2: "dropWhile py_isdigit cs = x # r" by (simp add: r2_def)
      show ?thesis using dropWhile_hd_not [of py_isdigit cs] unfolding e2 by simp
    qed
    have cs: "cs = D @ w2 @ x # r"
    proof -
      have "cs = D @ r2" by (simp add: D_def r2_def)
      moreover have "r2 = w2 @ r3" by (simp add: w2_def r3_def)
      ultimately show ?thesis using r3 by simp
    qed
    have Dd: "\<forall>y\<in>set D. py_isdigit y" and Ws: "\<forall>y\<in>set w2. py_isspace y"
      by (auto simp: D_def w2_def dest: takeWhile_all)
    have nlq: "nl \<notin> set (D @ w2)" using Dd no by auto
    have c: "c \<noteq> nl" using dg by auto
    obtain Y where o: "re_sub page_match [] (c = nl) cs = D @ w2 @ x # Y"
      using re_sub_page_copy [OF nlq, of "x # r"] c cs by auto
    have dD: "dropWhile py_isdigit (D @ w2 @ x # Y) = w2 @ x # Y"
    proof (cases w2)
      case Nil
      with Dd xd show ?thesis by simp
    next
      case (Cons y w)
      with Dd Ws have "\<not> py_isdigit y" by (auto dest: py_isspace_not_digit)
      with Dd Cons show ?thesis by simp
    qed
    have "takeWhile py_isspace (w2 @ x # Y) = w2" "dropWhile py_isspace (w2 @ x # Y) = x # Y"
      using Ws x by simp_all
    with dD no have "\<not> (page_match True (c # D @ w2 @ x # Y) \<noteq> None)"
      by (simp only: page_match_digit_Cons [OF dg]) simp
    then show ?thesis by (simp only: out o not_not)
  next
    case ot
    then have "page_match True (c # re_sub page_match [] (c = nl) cs) = None"
      by (rule page_match_other_Cons)
    then show ?thesis by (simp only: out)
  qed
qed simp

lemma no_match_re_sub_page:
  "m = page_match \<Longrightarrow> r = [] \<Longrightarrow> no_match page_match b (re_sub m r b s)"
proof (induction m r b s rule: re_sub.induct)
  case (2 m r bol c cs)
  show ?case
  proof (cases "page_match bol (c # cs)")
    case None
    then have out: "re_sub m r bol (c # cs) = c # re_sub page_match [] (c = nl) cs"
      using "2.prems" by simp
    have IH: "no_match page_match (c = nl) (re_sub page_match [] (c = nl) cs)"
      using "2.IH"(1) [OF _ "2.prems"] None "2.prems" by simp
    have "page_match bol (c # re_sub page_match [] (c = nl) cs) = None"
    proof (cases bol)
      case True
      with None page_match_None_re_sub [of "c # cs" True] show ?thesis by simp
    qed simp
    with IH out show ?thesis by simp
  next
    case (Some k)
    let ?b' = "(c # cs) ! k = nl"
    let ?o = "re_sub page_match [] ?b' (drop k cs)"
    have IH: "no_match page_match ?b' ?o" using "2.IH"(2) [OF _ "2.prems"] Some "2.prems" by simp
    from page_match_SomeD [OF Some] obtain w1 d w2 rest where
      b: "bol" and s: "c # cs = w1 @ d @ w2 @ rest" "Suc k = length (w1 @ d @ w2)"
      and rest: "rest = [] \<or> hd rest = nl" by blast
    have dr: "drop k cs = rest" using s by (metis append.assoc append_eq_conv_conj drop_Suc_Cons)
    have "no_match page_match True ?o"
    proof (cases ?b')
      case False
      show ?thesis
      proof (cases rest)
        case (Cons y X)
        with rest have y: "y = nl" by simp
        with Cons dr False have o: "?o = nl # re_sub page_match [] True X" by simp
        with IH False have "no_match page_match True (re_sub page_match [] True X)" by simp
        then have "page_match True (re_sub page_match [] True X) = None"
          by (cases "re_sub page_match [] True X") (auto simp: page_match_def)
        then have "page_match True ?o = None" by (simp add: o page_match_space_Cons)
        with IH False show ?thesis by (simp add: no_match_page_True)
      qed (use dr in simp)
    qed (use IH in simp)
    with Some b "2.prems" show ?thesis by simp
  qed
qed simp

lemma page_free_strip_page_numbers: "page_free_from Lead (strip_page_numbers s)"
  using no_match_re_sub_page [of page_match "[]" True s]
  by (simp add: strip_page_numbers_def no_match_page_free)

subsection \<open>The later passes keep lines free of page numbers\<close>

lemma page_free_replicate_nl:
  "page_free_from q (replicate (Suc n) nl @ t) \<longleftrightarrow> q \<notin> {Digits, Trail} \<and> page_free_from Lead t"
  by (induction n arbitrary: q) auto

lemma page_free_re_sub_nl:
  "m = nl_match \<Longrightarrow> r = [nl, nl] \<Longrightarrow> page_free_from q s \<Longrightarrow> page_free_from q (re_sub m r b s)"
proof (induction m r b s arbitrary: q rule: re_sub.induct)
  case (2 m r bol c cs)
  show ?case
  proof (cases "nl_match bol (c # cs)")
    case None
    then have out: "re_sub m r bol (c # cs) = c # re_sub nl_match [nl, nl] (c = nl) cs"
      using "2.prems" by simp
    have IH: "\<And>q. page_free_from q cs \<Longrightarrow> page_free_from q (re_sub nl_match [nl, nl] (c = nl) cs)"
      using "2.IH"(1) "2.prems"(1,2) None by simp
    have "page_free_from q (c # re_sub nl_match [nl, nl] (c = nl) cs)"
      using "2.prems"(3) IH by (cases "c = nl") simp_all
    then show ?thesis by (simp only: out)
  next
    case (Some k)
    from nl_match_Some [OF Some] have k: "Suc k = nl_lead (c # cs)" "3 \<le> nl_lead (c # cs)" by auto
    let ?t = "take (Suc k) (c # cs)"
    have t: "?t = takeWhile (\<lambda>x. x = nl) (c # cs)"
      using k(1) unfolding nl_lead_def by (metis takeWhile_eq_take)
    have len: "length ?t = Suc k"
    proof -
      have "Suc k \<le> length (c # cs)"
        using k(1) length_takeWhile_le [of "\<lambda>x. x = nl" "c # cs"] unfolding nl_lead_def by linarith
      then show ?thesis by simp
    qed
    have all: "\<forall>y\<in>set ?t. y = nl" unfolding t by (auto dest: takeWhile_all)
    have "?t = replicate (length ?t) nl" by (rule replicate_length_same [OF all, symmetric])
    also have "\<dots> = replicate (Suc k) nl" by (simp only: len)
    finally have tk: "?t = replicate (Suc k) nl" .
    have "c # cs = ?t @ drop (Suc k) (c # cs)" by (rule append_take_drop_id [symmetric])
    with tk have cs: "c # cs = replicate (Suc k) nl @ drop k cs" by simp
    have pf: "q \<notin> {Digits, Trail}" "page_free_from Lead (drop k cs)"
      using "2.prems"(3) cs page_free_replicate_nl [of q k "drop k cs"] by auto
    have "page_free_from Lead (re_sub nl_match [nl, nl] ((c # cs) ! k = nl) (drop k cs))"
      using "2.IH"(2) "2.prems"(1,2) Some pf(2) by simp
    with pf Some "2.prems" show ?thesis by simp
  qed
qed simp

lemma page_free_dropWhile_space:
  "page_free_from Lead s \<Longrightarrow> page_free_from Lead (dropWhile py_isspace s)"
  by (induction s) (auto split: if_splits)

lemma page_free_trailing_space:
  "\<forall>c\<in>set w. py_isspace c \<Longrightarrow> q \<in> {Digits, Trail} \<Longrightarrow> \<not> page_free_from q w"
  by (induction w arbitrary: q) (auto split: if_splits)

lemma page_free_drop_trailing:
  "page_free_from q (x @ w) \<Longrightarrow> \<forall>c\<in>set w. py_isspace c \<Longrightarrow> page_free_from q x"
proof (induction x arbitrary: q)
  case Nil
  then show ?case using page_free_trailing_space [of w q] by auto
qed (auto split: if_splits)

lemma page_free_py_strip: "page_free_from Lead s \<Longrightarrow> page_free_from Lead (py_strip s)"
proof -
  assume a: "page_free_from Lead s"
  let ?y = "dropWhile py_isspace s"
  have y: "page_free_from Lead ?y" using a by (rule page_free_dropWhile_space)
  have "rev ?y = takeWhile py_isspace (rev ?y) @ dropWhile py_isspace (rev ?y)" by simp
  then have "?y = py_strip s @ rev (takeWhile py_isspace (rev ?y))"
    by (metis py_strip_def rev_append rev_rev_ident)
  with y have "page_free_from Lead (py_strip s @ rev (takeWhile py_isspace (rev ?y)))" by simp
  then show ?thesis by (rule page_free_drop_trailing) (auto dest: takeWhile_all)
qed

lemma page_free_clean_text: "page_free_from Lead (clean_text s)"
proof -
  have "page_free_from Lead (strip_page_numbers (strip_tags s))"
    by (rule page_free_strip_page_numbers)
  then have "page_free_from Lead (collapse_newlines (strip_page_numbers (strip_tags s)))"
    unfolding collapse_newlines_def by (rule page_free_re_sub_nl [rotated 2]) simp_all
  then show ?thesis unfolding clean_text_def by (rule page_free_py_strip)
qed

subsection \<open>Lines\<close>

lemma lines_of_not_Nil [simp]: "lines_of s \<noteq> []"
  by (induction s) auto

lemma page_free_lines:
  "page_free_from q t \<longleftrightarrow>
     foldl pstep q (hd (lines_of t)) \<notin> {Digits, Trail} \<and>
     (\<forall>l\<in>set (tl (lines_of t)). \<not> is_page_line l)"
proof (induction t arbitrary: q)
  case (Cons c t)
  show ?case
  proof (cases "c = nl")
    case True
    have "(\<forall>l\<in>set (lines_of t). \<not> is_page_line l) \<longleftrightarrow>
          \<not> is_page_line (hd (lines_of t)) \<and> (\<forall>l\<in>set (tl (lines_of t)). \<not> is_page_line l)"
      by (cases "lines_of t") auto
    with True Cons.IH [of Lead] show ?thesis by (simp add: is_page_line_def)
  next
    case False
    with Cons.IH [of "pstep q c"] show ?thesis by simp
  qed
qed simp

lemma page_free_iff_lines:
  "page_free_from Lead t \<longleftrightarrow> (\<forall>l\<in>set (lines_of t). \<not> is_page_line l)"
proof -
  have "set (lines_of t) = insert (hd (lines_of t)) (set (tl (lines_of t)))"
    by (cases "lines_of t") auto
  then show ?thesis by (simp add: page_free_lines is_page_line_def)
qed

lemma foldl_pstep_spaces:
  "\<forall>x\<in>set a. py_isspace x \<Longrightarrow> foldl pstep Lead a = Lead"
  by (induction a) auto

lemma foldl_pstep_digits:
  "\<forall>x\<in>set d. py_isdigit x \<Longrightarrow> foldl pstep Digits d = Digits"
  by (induction d) auto

lemma foldl_pstep_Trail:
  "foldl pstep Trail e = (if \<forall>x\<in>set e. py_isspace x then Trail else Other)"
  by (induction e) auto

lemma foldl_pstep_Digits_spaces:
  "\<forall>x\<in>set e. py_isspace x \<Longrightarrow> foldl pstep Digits e \<in> {Digits, Trail}"
  by (cases e) (auto simp: foldl_pstep_Trail dest: py_isspace_not_digit)

text \<open>\<open>is_page_line\<close> accepts exactly the language of \<open>\s*\d+\s*\<close>.\<close>

lemma is_page_line_iff:
  "is_page_line l \<longleftrightarrow>
     (\<exists>a d e. l = a @ d @ e \<and> (\<forall>x\<in>set a. py_isspace x) \<and> d \<noteq> [] \<and>
              (\<forall>x\<in>set d. py_isdigit x) \<and> (\<forall>x\<in>set e. py_isspace x))"
proof
  assume p: "is_page_line l"
  let ?a = "takeWhile py_isspace l"
  let ?r1 = "dropWhile py_isspace l"
  have a: "\<forall>x\<in>set ?a. py_isspace x" by (auto dest: takeWhile_all)
  have "foldl pstep Lead l = foldl pstep Lead ?r1"
    using foldl_pstep_spaces [OF a] by (metis foldl_append takeWhile_dropWhile_id)
  with p have p1: "foldl pstep Lead ?r1 \<in> {Digits, Trail}" by (simp add: is_page_line_def)
  then obtain x r where r1: "?r1 = x # r" by (cases ?r1) auto
  have xs: "\<not> py_isspace x" using dropWhile_hd_not [of py_isspace l] unfolding r1 by simp
  have xd: "py_isdigit x"
  proof (rule ccontr)
    assume "\<not> py_isdigit x"
    with xs p1 r1 show False by simp
  qed
  let ?d = "x # takeWhile py_isdigit r"
  let ?e = "dropWhile py_isdigit r"
  have d: "\<forall>y\<in>set ?d. py_isdigit y" using xd by (auto dest: takeWhile_all)
  have "foldl pstep Lead ?r1 = foldl pstep Digits ?e"
    using foldl_pstep_digits [of "takeWhile py_isdigit r"] xd xs r1
    by (simp, metis foldl_append takeWhile_dropWhile_id takeWhile_all)
  with p1 have pe: "foldl pstep Digits ?e \<in> {Digits, Trail}" by simp
  have e: "\<forall>y\<in>set ?e. py_isspace y"
  proof (cases ?e)
    case (Cons y e')
    have "\<not> py_isdigit y" using dropWhile_hd_not [of py_isdigit r] unfolding Cons by simp
    with pe Cons have "py_isspace y" "foldl pstep Trail e' \<in> {Digits, Trail}"
      by (auto split: if_splits)
    with Cons show ?thesis by (simp add: foldl_pstep_Trail split: if_splits)
  qed (simp only: list.set(1) ball_empty)
  have "l = ?a @ ?d @ ?e" using r1 by (metis append_Cons takeWhile_dropWhile_id)
  with a d e show "\<exists>a d e. l = a @ d @ e \<and> (\<forall>x\<in>set a. py_isspace x) \<and> d \<noteq> [] \<and>
              (\<forall>x\<in>set d. py_isdigit x) \<and> (\<forall>x\<in>set e. py_isspace x)" by blast
next
  assume "\<exists>a d e. l = a @ d @ e \<and> (\<forall>x\<in>set a. py_isspace x) \<and> d \<noteq> [] \<and>
              (\<forall>x\<in>set d. py_isdigit x) \<and> (\<forall>x\<in>set e. py_isspace x)"
  then obtain a x d e where l: "l = a @ (x # d) @ e" and a: "\<forall>y\<in>set a. py_isspace y"
    and d: "\<forall>y\<in>set (x # d). py_isdigit y" and e: "\<forall>y\<in>set e. py_isspace y"
    by (metis list.exhaust)
  have "foldl pstep Lead l = foldl pstep Digits e"
    using foldl_pstep_spaces [OF a] foldl_pstep_digits [of d] d l by simp
  then show "is_page_line l" using foldl_pstep_Digits_spaces [OF e] by (simp add: is_page_line_def)
qed

end
