(* ===== verification/Normalizer_Correct.thy ===== *)
theory Normalizer_Correct
  imports Page_Lines
begin

text \<open>
  The correctness properties of \<open>clean_text\<close> (\<open>src/clean_data.py\<close>,
  lines 8--16), each derived from the pass-by-pass facts of
  \<open>Normal_Form\<close> and \<open>Page_Lines\<close>, with a witness at a concrete input.
\<close>

lemma clean_text_id_if_normal:
  assumes "tag_free s" "page_free_from Lead s" "nl3_free s" "stripped s"
  shows "clean_text s = s"
proof -
  have "strip_tags s = s"
    unfolding strip_tags_def using assms(1) by (simp add: re_sub_no_match no_match_tag_free)
  moreover have "strip_page_numbers s = s"
    unfolding strip_page_numbers_def using assms(2) by (simp add: re_sub_no_match no_match_page_free)
  moreover have "collapse_newlines s = s"
    unfolding collapse_newlines_def using assms(3) by (simp add: re_sub_no_match no_match_nl3_free)
  moreover have "py_strip s = s" using assms(4) py_strip_id unfolding stripped_def by blast
  ultimately show ?thesis by (simp add: clean_text_def)
qed

text \<open>C1: \<open>clean_text\<close> is idempotent: cleaning an already cleaned text changes
  nothing.\<close>

theorem clean_text_idem: "clean_text (clean_text s) = clean_text s"
  using tag_free_clean_text page_free_clean_text nl3_free_clean_text stripped_clean_text
  by (rule clean_text_id_if_normal)

text \<open>C2: No line of \<open>clean_text\<close>'s result (splitting at newlines as
  \<open>str.split('\n')\<close> does) is a page-number line, i.e. a word of
  \<open>\s*\d+\s*\<close>.\<close>

theorem clean_text_no_page_lines:
  "\<forall>l\<in>set (lines_of (clean_text s)). \<not> is_page_line l"
  using page_free_clean_text page_free_iff_lines by blast

theorem clean_text_no_page_lines_witness:
  "lines_of (clean_text ''Intro\<newline> 12 \<newline>\<newline>\<newline>\<newline>3\<newline>Rules'') = [''Intro'', [], ''Rules''] \<and>
   \<not> is_page_line ''Rules''"
proof -
  have e: "lines_of (clean_text ''Intro\<newline> 12 \<newline>\<newline>\<newline>\<newline>3\<newline>Rules'') = [''Intro'', [], ''Rules'']"
    by code_simp
  with clean_text_no_page_lines [of "''Intro\<newline> 12 \<newline>\<newline>\<newline>\<newline>3\<newline>Rules''"]
  show ?thesis by simp
qed

text \<open>C3: The texts \<open>clean_text\<close> leaves unchanged are exactly the normal forms:
  no tag, no page-number line, no three consecutive newlines, no surrounding
  whitespace.\<close>

theorem clean_text_fixpoint:
  "clean_text s = s \<longleftrightarrow>
     \<not> (\<exists>u v w. s = u @ v @ w \<and> is_tag v) \<and>
     (\<forall>l\<in>set (lines_of s). \<not> is_page_line l) \<and>
     \<not> (\<exists>u w. s = u @ [nl, nl, nl] @ w) \<and>
     (s = [] \<or> \<not> py_isspace (hd s) \<and> \<not> py_isspace (last s))"
proof
  assume e: "clean_text s = s"
  show "\<not> (\<exists>u v w. s = u @ v @ w \<and> is_tag v) \<and> (\<forall>l\<in>set (lines_of s). \<not> is_page_line l) \<and>
     \<not> (\<exists>u w. s = u @ [nl, nl, nl] @ w) \<and> (s = [] \<or> \<not> py_isspace (hd s) \<and> \<not> py_isspace (last s))"
    using tag_free_clean_text [of s] page_free_clean_text [of s] nl3_free_clean_text [of s]
      stripped_clean_text [of s]
    unfolding e tag_free_iff page_free_iff_lines nl3_free_iff stripped_def by blast
next
  assume "\<not> (\<exists>u v w. s = u @ v @ w \<and> is_tag v) \<and> (\<forall>l\<in>set (lines_of s). \<not> is_page_line l) \<and>
     \<not> (\<exists>u w. s = u @ [nl, nl, nl] @ w) \<and> (s = [] \<or> \<not> py_isspace (hd s) \<and> \<not> py_isspace (last s))"
  then show "clean_text s = s"
    by (intro clean_text_id_if_normal) (simp_all add: tag_free_iff page_free_iff_lines nl3_free_iff stripped_def)
qed

theorem clean_text_fixpoint_witness:
  "clean_text ''Rule 1\<newline>\<newline>Rule 2'' = ''Rule 1\<newline>\<newline>Rule 2'' \<and> \<not> is_page_line ''Rule 2'' \<and>
   \<not> (\<exists>u w. ''Rule 1\<newline>\<newline>Rule 2'' = u @ [nl, nl, nl] @ w)"
proof -
  have e: "clean_text ''Rule 1\<newline>\<newline>Rule 2'' = ''Rule 1\<newline>\<newline>Rule 2''" by code_simp
  have "lines_of ''Rule 1\<newline>\<newline>Rule 2'' = [''Rule 1'', [], ''Rule 2'']" by simp
  with e clean_text_fixpoint [of "''Rule 1\<newline>\<newline>Rule 2''"] show ?thesis by simp
qed

text \<open>C13: After \<open>clean_text\<close> no markup tag remains: no substring of the result
  is in the language of \<open><[^>]+>\<close>, even where removing one tag brings a
  \<open><\<close> and a \<open>>\<close> together.\<close>

theorem clean_text_no_tags: "\<not> (\<exists>u v w. clean_text s = u @ v @ w \<and> is_tag v)"
  using tag_free_clean_text tag_free_iff by blast

theorem clean_text_no_tags_witness:
  "\<not> (\<exists>u v w. clean_text ''<<a>b>'' = u @ v @ w \<and> is_tag v) \<and> clean_text ''<<a>b>'' = ''b>''"
proof
  show "\<not> (\<exists>u v w. clean_text ''<<a>b>'' = u @ v @ w \<and> is_tag v)"
    by (rule clean_text_no_tags)
  show "clean_text ''<<a>b>'' = ''b>''" by code_simp
qed

text \<open>C14: The result of \<open>clean_text\<close> never contains three consecutive newlines.\<close>

theorem clean_text_no_blank_runs: "\<not> (\<exists>u w. clean_text s = u @ [nl, nl, nl] @ w)"
  using nl3_free_clean_text nl3_free_iff by blast

theorem clean_text_no_blank_runs_witness:
  "\<not> (\<exists>u w. clean_text ''a\<newline>\<newline>\<newline>\<newline>b'' = u @ [nl, nl, nl] @ w) \<and>
   clean_text ''a\<newline>\<newline>\<newline>\<newline>b'' = ''a\<newline>\<newline>b''"
proof
  show "\<not> (\<exists>u w. clean_text ''a\<newline>\<newline>\<newline>\<newline>b'' = u @ [nl, nl, nl] @ w)"
    by (rule clean_text_no_blank_runs)
  show "clean_text ''a\<newline>\<newline>\<newline>\<newline>b'' = ''a\<newline>\<newline>b''" by code_simp
qed

text \<open>C15: The tag matcher is the regular expression \<open><[^>]+>\<close>: at any position it
  reports a match of length \<open>Suc k\<close> exactly when the first \<open>Suc k\<close>
  characters there form a word of the pattern's language; such a word is unique, so
  this is the match the regex engine selects.\<close>

theorem tag_match_regex:
  "tag_match b s = Some k \<longleftrightarrow> Suc k \<le> length s \<and> is_tag (take (Suc k) s)"
proof
  assume "tag_match b s = Some k"
  then obtain v w where "s = CHR ''<'' # v @ CHR ''>'' # w" "v \<noteq> []" "CHR ''>'' \<notin> set v"
    "k = Suc (length v)" by (auto simp: tag_match_Some)
  then show "Suc k \<le> length s \<and> is_tag (take (Suc k) s)" by (auto simp: is_tag_iff)
next
  assume a: "Suc k \<le> length s \<and> is_tag (take (Suc k) s)"
  then obtain v where v: "take (Suc k) s = CHR ''<'' # v @ [CHR ''>'']" "v \<noteq> []" "CHR ''>'' \<notin> set v"
    by (auto simp: is_tag_iff)
  have "s = take (Suc k) s @ drop (Suc k) s" by simp
  with v(1) have "s = CHR ''<'' # v @ CHR ''>'' # drop (Suc k) s" by simp
  moreover have "k = Suc (length v)"
  proof -
    have "length (take (Suc k) s) = Suc k" using a by simp
    with v(1) show ?thesis by simp
  qed
  ultimately show "tag_match b s = Some k" using v by (auto simp: tag_match_Some)
qed

theorem tag_match_regex_witness:
  "tag_match True ''<b>x'' = Some 2 \<and> 3 \<le> length ''<b>x'' \<and> is_tag (take 3 ''<b>x'')"
proof -
  have "tag_match True ''<b>x'' = Some 2" by (simp add: tag_match_def)
  with tag_match_regex [of True "''<b>x''" 2] show ?thesis by simp
qed

end
