(* ===== verification/Prompt.thy ===== *)
theory Prompt
  imports Prelude
begin

text \<open>
  The answer prompt of \<open>src/app.py\<close> (lines 63--74 and the chain of lines
  88--94).  The template is a Python f-string template: LangChain's
  \<open>ChatPromptTemplate.from_template\<close> parses it with Python's format-string
  syntax (\<open>{name}\<close> is a field, \<open>{{\<close> and \<open>}}\<close> are literal braces, a
  lone brace is a \<open>ValueError\<close>), takes the field names as the prompt's input
  variables, and fills the fields with \<open>str\<close> of the values.  The chain
  \<open>{"context": retriever, "question": RunnablePassthrough()} | prompt\<close> fills
  \<open>{context}\<close> with the retriever's result, a Python list of \<open>Document\<close>
  objects, so the text is that list's \<open>repr\<close>: \<open>[d1, d2]\<close> with each
  element's \<open>repr\<close> (which includes the metadata) and \<open>", "\<close> between.
  Conversions and format specifications (\<open>{x!r}\<close>, \<open>{x:>5}\<close>) are not
  modelled; the template has none.
\<close>

datatype fmt_seg = Lit string | Field string

datatype fmt_error = SingleCloseBrace | UnclosedField | MissingKey string

text \<open>The literal text of \<open>template\<close> (lines 63--73), byte for byte.\<close>

definition template :: string where
  \<open>template = ''\<newline>You are a helpful AI assistant for the University. \<newline>Answer questions strictly based on the provided context. \<newline>If the answer is not in the context, say "I cannot find that information in the official documents."\<newline>\<newline>Context:\<newline>{context}\<newline>\<newline>Question:\<newline>{question}\<newline>''\<close>

definition fallback_sentence :: string where
  \<open>fallback_sentence = ''I cannot find that information in the official documents.''\<close>

definition lit_seg :: "string \<Rightarrow> fmt_seg list" where
  "lit_seg acc = (if acc = [] then [] else [Lit acc])"

text \<open>
  Python's format-string parser (\<open>string.Formatter.parse\<close>), accumulating the
  current literal text in \<open>acc\<close>.
\<close>

function parse_fmt :: "string \<Rightarrow> string \<Rightarrow> fmt_error + fmt_seg list" where
  "parse_fmt acc [] = Inr (lit_seg acc)"
| "parse_fmt acc (c # s) =
     (if c = CHR ''{'' then
        (if s \<noteq> [] \<and> hd s = CHR ''{'' then parse_fmt (acc @ [c]) (tl s)
         else
           (let name = takeWhile (\<lambda>x. x \<noteq> CHR ''}'') s;
                rest = dropWhile (\<lambda>x. x \<noteq> CHR ''}'') s
            in if rest = [] \<or> CHR ''{'' \<in> set name then Inl UnclosedField
               else (case parse_fmt [] (tl rest) of
                       Inl e \<Rightarrow> Inl e
                     | Inr segs \<Rightarrow> Inr (lit_seg acc @ Field name # segs))))
      else if c = CHR ''}'' then
        (if s \<noteq> [] \<and> hd s = CHR ''}'' then parse_fmt (acc @ [c]) (tl s) else Inl SingleCloseBrace)
      else parse_fmt (acc @ [c]) s)"
  by pat_completeness auto
termination
  by (relation "measure (\<lambda>(acc, s). length s)") (auto simp: le_imp_less_Suc length_dropWhile_less_Suc)

text \<open>\<open>str.format(**kwargs)\<close>: a field without a value is a \<open>KeyError\<close>.\<close>

fun render :: "fmt_seg list \<Rightarrow> (string \<Rightarrow> string option) \<Rightarrow> fmt_error + string" where
  "render [] env = Inr []"
| "render (Lit s # segs) env = (case render segs env of Inl e \<Rightarrow> Inl e | Inr t \<Rightarrow> Inr (s @ t))"
| "render (Field n # segs) env =
     (case env n of
        None \<Rightarrow> Inl (MissingKey n)
      | Some v \<Rightarrow> (case render segs env of Inl e \<Rightarrow> Inl e | Inr t \<Rightarrow> Inr (v @ t)))"

definition format_template :: "string \<Rightarrow> (string \<Rightarrow> string option) \<Rightarrow> fmt_error + string" where
  "format_template t env = (case parse_fmt [] t of Inl e \<Rightarrow> Inl e | Inr segs \<Rightarrow> render segs env)"

text \<open>\<open>sep.join(xs)\<close>, and Python's \<open>repr\<close> of a list given the \<open>repr\<close> of
  its elements.\<close>

fun py_join :: "string \<Rightarrow> string list \<Rightarrow> string" where
  "py_join sep [] = []"
| "py_join sep [x] = x"
| "py_join sep (x # xs) = x @ sep @ py_join sep xs"

definition py_list_repr :: "('a \<Rightarrow> string) \<Rightarrow> 'a list \<Rightarrow> string" where
  "py_list_repr r xs = CHR ''['' # py_join '', '' (map r xs) @ '']''"

text \<open>
  The prompt the chain sends for question \<open>q\<close> and retrieved documents
  \<open>docs\<close>, with \<open>doc_repr\<close> the \<open>repr\<close> of a \<open>Document\<close>.
\<close>

definition prompt_env :: "string \<Rightarrow> string \<Rightarrow> string \<Rightarrow> string option" where
  "prompt_env ctx q = (\<lambda>n. if n = ''context'' then Some ctx else if n = ''question'' then Some q else None)"

definition render_prompt :: "('d \<Rightarrow> string) \<Rightarrow> 'd list \<Rightarrow> string \<Rightarrow> fmt_error + string" where
  "render_prompt doc_repr docs q = format_template template (prompt_env (py_list_repr doc_repr docs) q)"

subsection \<open>The prompt template\<close>

lemma parse_template:
  \<open>parse_fmt [] template =
     Inr [Lit ''\<newline>You are a helpful AI assistant for the University. \<newline>Answer questions strictly based on the provided context. \<newline>If the answer is not in the context, say "I cannot find that information in the official documents."\<newline>\<newline>Context:\<newline>'',
          Field ''context'', Lit ''\<newline>\<newline>Question:\<newline>'', Field ''question'', Lit ''\<newline>'']\<close>
  by code_simp

subsection \<open>Properties of the prompt\<close>

text \<open>C16: The prompt the chain sends is the template with the \<open>repr\<close> of the
  retrieved document list in place of \<open>{context}\<close> and the user's question,
  verbatim, in place of \<open>{question}\<close>; rendering never fails.
\<close>

lemma render_prompt_eq:
  \<open>render_prompt r docs q =
     Inr (''\<newline>You are a helpful AI assistant for the University. \<newline>Answer questions strictly based on the provided context. \<newline>If the answer is not in the context, say "I cannot find that information in the official documents."\<newline>\<newline>Context:\<newline>''
          @ py_list_repr r docs @ ''\<newline>\<newline>Question:\<newline>'' @ q @ ''\<newline>'')\<close>
  by (simp add: render_prompt_def format_template_def parse_template prompt_env_def)

text \<open>C21: Every prompt sent to the model contains the fallback sentence the model is
  told to answer with when the context lacks the answer, whatever the question
  and the retrieved documents.
\<close>

lemma fallback_in_prompt:
  "\<exists>p u w. render_prompt r docs q = Inr p \<and> p = u @ fallback_sentence @ w"
proof -
  have \<open>render_prompt r docs q =
    Inr (''\<newline>You are a helpful AI assistant for the University. \<newline>Answer questions strictly based on the provided context. \<newline>If the answer is not in the context, say "''
         @ fallback_sentence @ (''"\<newline>\<newline>Context:\<newline>'' @ py_list_repr r docs @ ''\<newline>\<newline>Question:\<newline>'' @ q @ ''\<newline>''))\<close>
    by (simp add: render_prompt_def format_template_def parse_template prompt_env_def fallback_sentence_def)
  then show ?thesis by blast
qed

end
