(* ===== verification/App.thy ===== *)
theory App
  imports Prompt
begin

text \<open>
  One run of the Streamlit script \<open>src/app.py\<close>.  Streamlit re-executes the
  whole script on every interaction; what survives between runs is the state
  record \<open>app_state\<close>: the process environment variable
  \<open>MISTRAL_API_KEY\<close> (line 27), the directory \<open>DB_PATH\<close> on disk with the
  chunks Chroma persisted there (lines 48, 52), the \<open>st.cache_resource\<close> entry
  of \<open>load_data\<close> (line 31) and \<open>st.session_state.messages\<close> (lines 77--96).
  The external services are the fields of the record \<open>services\<close>: the loaded
  corpus of \<open>data_clean\<close> (\<open>None\<close> when the directory is missing), the
  splitter, the embedding and indexing call of \<open>Chroma.from_documents\<close>, the
  retriever, the chat model and the \<open>repr\<close> of a chunk.  Each may fail with an
  error of type \<open>'e\<close>; an exception escaping the script ends the run as
  \<open>Crashed\<close>, \<open>st.stop()\<close> ends it as \<open>Stopped\<close>.  Page decoration
  (lines 16--18, 22, 25, 28) only writes to the page and is not modelled.
\<close>

datatype role = User | Assistant

record msg =
  role :: role
  content :: string

record 'c app_state =
  env_key :: "string option"
  db_disk :: "'c list option"
  cache :: "'c list option"
  messages :: "msg list option"

record ('d, 'c, 'e) services =
  corpus :: "'d list option"
  split_documents :: "'d list \<Rightarrow> 'c list"
  from_documents :: "'c list \<Rightarrow> 'e option"
  retrieve :: "'c list \<Rightarrow> string \<Rightarrow> 'e + 'c list"
  complete :: "string \<Rightarrow> 'e + string"
  chunk_repr :: "'c \<Rightarrow> string"

datatype 'e failure = Service 'e | Prompt_Error fmt_error

datatype 'e outcome = Stopped | Crashed "'e failure" | Shown "msg list"

definition greeting :: msg where
  "greeting = \<lparr>role = Assistant, content = ''Hello! I can answer questions about Academic Rules, Hostel Policy, and Mass Comm guidelines. What would you like to know?''\<rparr>"

text \<open>
  \<open>load_data\<close> (lines 31--49), behind \<open>st.cache_resource\<close>: a cached value is
  returned without running the body; a missing \<open>data_clean\<close> stops the run
  (a stopped call is not cached); otherwise the corpus is split, embedded and
  persisted to \<open>DB_PATH\<close>, and the store is cached.
  \<open>Chroma.from_documents(..., persist_directory=DB_PATH)\<close> (line 48) opens
  the persistent collection in \<open>DB_PATH\<close> before it embeds the chunks, so
  when the embedding call raises, an empty store is left on disk.
\<close>

definition load_data :: "('d, 'c, 'e) services \<Rightarrow> 'c app_state \<Rightarrow> ('e outcome + 'c list) \<times> 'c app_state" where
  "load_data svc st =
     (case cache st of
        Some v \<Rightarrow> (Inr v, st)
      | None \<Rightarrow>
          (case corpus svc of
             None \<Rightarrow> (Inl Stopped, st)
           | Some docs \<Rightarrow>
               (let chunks = split_documents svc docs in
                case from_documents svc chunks of
                  Some e \<Rightarrow> (Inl (Crashed (Service e)), st\<lparr>db_disk := Some []\<rparr>)
                | None \<Rightarrow> (Inr chunks, st\<lparr>db_disk := Some chunks, cache := Some chunks\<rparr>))))"

text \<open>Lines 52--56: an existing \<open>DB_PATH\<close> is reopened as it is.\<close>

definition open_store :: "('d, 'c, 'e) services \<Rightarrow> 'c app_state \<Rightarrow> ('e outcome + 'c list) \<times> 'c app_state" where
  "open_store svc st = (case db_disk st of Some cs \<Rightarrow> (Inr cs, st) | None \<Rightarrow> load_data svc st)"

text \<open>
  The chain of lines 88--94: retrieve for the question, render the prompt, call
  the model; \<open>StrOutputParser\<close> returns the reply's text.
\<close>

definition answer :: "('d, 'c, 'e) services \<Rightarrow> 'c list \<Rightarrow> string \<Rightarrow> 'e failure + string" where
  "answer svc store q =
     (case retrieve svc store q of
        Inl e \<Rightarrow> Inl (Service e)
      | Inr docs \<Rightarrow>
          (case render_prompt (chunk_repr svc) docs q of
             Inl e \<Rightarrow> Inl (Prompt_Error e)
           | Inr p \<Rightarrow> (case complete svc p of Inl e \<Rightarrow> Inl (Service e) | Inr r \<Rightarrow> Inr r)))"

text \<open>
  The chat interface, lines 77--96: initialise the history, show it, and on a
  non-empty input append the user's turn, run the chain and append the reply.
\<close>

definition chat :: "('d, 'c, 'e) services \<Rightarrow> 'c list \<Rightarrow> string option \<Rightarrow> 'c app_state \<Rightarrow> 'e outcome \<times> 'c app_state" where
  "chat svc store inp st =
     (let ms = (case messages st of None \<Rightarrow> [greeting] | Some ms \<Rightarrow> ms) in
      case inp of
        None \<Rightarrow> (Shown ms, st\<lparr>messages := Some ms\<rparr>)
      | Some q \<Rightarrow>
          if q = [] then (Shown ms, st\<lparr>messages := Some ms\<rparr>)
          else
            (let ms1 = ms @ [\<lparr>role = User, content = q\<rparr>] in
             case answer svc store q of
               Inl e \<Rightarrow> (Crashed e, st\<lparr>messages := Some ms1\<rparr>)
             | Inr r \<Rightarrow>
                 (let ms2 = ms1 @ [\<lparr>role = Assistant, content = r\<rparr>] in
                  (Shown ms2, st\<lparr>messages := Some ms2\<rparr>))))"

text \<open>The whole script, for the key typed in the sidebar and the chat input.\<close>

definition run :: "('d, 'c, 'e) services \<Rightarrow> string \<Rightarrow> string option \<Rightarrow> 'c app_state \<Rightarrow> 'e outcome \<times> 'c app_state" where
  "run svc api_key inp st =
     (if api_key = [] then (Stopped, st)
      else
        (case open_store svc (st\<lparr>env_key := Some api_key\<rparr>) of
           (Inl out, st') \<Rightarrow> (out, st')
         | (Inr store, st') \<Rightarrow> chat svc store inp st'))"

definition init_state :: "'c list option \<Rightarrow> 'c app_state" where
  "init_state d = \<lparr>env_key = None, db_disk = d, cache = None, messages = None\<rparr>"

text \<open>
  The states a server process reaches from a fresh start (with or without a
  persisted store), the services of each run drawn from \<open>S\<close>.  Between
  runs the operator may delete \<open>DB_PATH\<close> (the way to force a rebuild) or
  restart the server, which empties the resource cache, the environment and
  the sessions but keeps the disk.
\<close>

inductive reachable :: "('d, 'c, 'e) services set \<Rightarrow> 'c app_state \<Rightarrow> bool" for S where
  init: "reachable S (init_state d)"
| step: "reachable S st \<Longrightarrow> svc \<in> S \<Longrightarrow> reachable S (snd (run svc k inp st))"
| delete_store: "reachable S st \<Longrightarrow> reachable S (st\<lparr>db_disk := None\<rparr>)"
| restart: "reachable S st \<Longrightarrow> reachable S (init_state (db_disk st))"

text \<open>
  The shape of the history: after the greeting, turns of a user message
  optionally answered by one assistant message; a user message is never empty.
\<close>

fun turns_ok :: "msg list \<Rightarrow> bool" where
  "turns_ok [] = True"
| "turns_ok [m] = (role m = User \<and> content m \<noteq> [])"
| "turns_ok (m # m' # ms) =
     (role m = User \<and> content m \<noteq> [] \<and> (if role m' = Assistant then turns_ok ms else turns_ok (m' # ms)))"

definition session_ok :: "msg list option \<Rightarrow> bool" where
  "session_ok mo = (case mo of None \<Rightarrow> True | Some ms \<Rightarrow> ms \<noteq> [] \<and> hd ms = greeting \<and> turns_ok (tl ms))"

text \<open>
  The abstract conversation: the exchanges of the session, each a question and
  the reply, if the chain returned one.  \<open>hist_of\<close> is the history the script
  keeps for it, \<open>converse\<close> the abstract effect of asking a question.
\<close>

type_synonym exchange = "string \<times> string option"

fun turn_msgs :: "exchange \<Rightarrow> msg list" where
  "turn_msgs (q, None) = [\<lparr>role = User, content = q\<rparr>]"
| "turn_msgs (q, Some r) = [\<lparr>role = User, content = q\<rparr>, \<lparr>role = Assistant, content = r\<rparr>]"

definition hist_of :: "exchange list \<Rightarrow> msg list" where
  "hist_of xs = greeting # concat (map turn_msgs xs)"

definition converse :: "('d, 'c, 'e) services \<Rightarrow> 'c list \<Rightarrow> string \<Rightarrow> exchange list \<Rightarrow> exchange list" where
  "converse svc store q xs = xs @ [(q, case answer svc store q of Inl e \<Rightarrow> None | Inr r \<Rightarrow> Some r)]"

subsection \<open>The history\<close>

lemma turns_ok_hd: "turns_ok (m # ms) \<Longrightarrow> role m = User \<and> content m \<noteq> []"
  by (cases ms) auto

lemma turns_ok_append:
  "turns_ok xs \<Longrightarrow> turns_ok ys \<Longrightarrow> turns_ok (xs @ ys)"
proof (induction xs rule: turns_ok.induct)
  case (2 m)
  then show ?case by (cases ys) (auto dest: turns_ok_hd)
qed auto

lemma turns_ok_turn: "fst x \<noteq> [] \<Longrightarrow> turns_ok (turn_msgs x)"
  by (cases x rule: turn_msgs.cases) auto

lemma open_store_messages [simp]: "messages (snd (open_store svc st)) = messages st"
  by (simp add: open_store_def load_data_def Let_def split: option.splits)

lemma chat_keeps_store [simp]:
  "db_disk (snd (chat svc store inp st)) = db_disk st"
  "cache (snd (chat svc store inp st)) = cache st"
  "env_key (snd (chat svc store inp st)) = env_key st"
  by (simp_all add: chat_def Let_def split: option.splits sum.splits)

lemma session_ok_snoc:
  "session_ok (Some ms) \<Longrightarrow> turns_ok ys \<Longrightarrow> session_ok (Some (ms @ ys))"
  by (cases ms) (auto simp: session_ok_def intro: turns_ok_append)

lemma session_ok_chat:
  "session_ok (messages st) \<Longrightarrow> session_ok (messages (snd (chat svc store inp st)))"
  by (auto simp: chat_def Let_def session_ok_def [of "Some [greeting]"]
      split: option.splits sum.splits intro!: session_ok_snoc)
    (auto simp: session_ok_def)

lemma session_ok_run:
  assumes "session_ok (messages st)"
  shows "session_ok (messages (snd (run svc k inp st)))"
proof (cases "open_store svc (st\<lparr>env_key := Some k\<rparr>)")
  case (Pair res st')
  then have "session_ok (messages st')"
    using assms open_store_messages [of svc "st\<lparr>env_key := Some k\<rparr>"] by simp
  then show ?thesis using Pair assms session_ok_chat by (cases res) (auto simp: run_def)
qed

end
