(* ===== verification/App_Correct.thy ===== *)
theory App_Correct
  imports App
begin

text \<open>
  Properties of one run of the script (\<open>run\<close>) and of the sessions a server
  process goes through (\<open>reachable\<close>).  The witnesses run the script with a
  one-chunk corpus whose services all succeed, or whose chat model fails.
\<close>

lemma demo_reachable:
  "reachable (UNIV :: (string, string, string) services set) \<lparr>env_key = Some ''key'', db_disk = Some [''a''], cache = Some [''a''],
      messages = Some [greeting, \<lparr>role = User, content = ''hi''\<rparr>, \<lparr>role = Assistant, content = ''ok''\<rparr>]\<rparr>"
proof -
  let ?svc = "\<lparr>corpus = Some [''a''], split_documents = id, from_documents = (\<lambda>_. None),
      retrieve = (\<lambda>s q. Inr s), complete = (\<lambda>p. Inr ''ok''), chunk_repr = id\<rparr> :: (string, string, string) services"
  have r: "reachable (UNIV :: (string, string, string) services set) (snd (run ?svc ''key'' (Some ''hi'') (init_state None)))"
    by (rule reachable.step [OF reachable.init]) simp
  have "snd (run ?svc ''key'' (Some ''hi'') (init_state None)) = \<lparr>env_key = Some ''key'', db_disk = Some [''a''], cache = Some [''a''],
      messages = Some [greeting, \<lparr>role = User, content = ''hi''\<rparr>, \<lparr>role = Assistant, content = ''ok''\<rparr>]\<rparr>"
    by code_simp
  with r show ?thesis by simp
qed

text \<open>C17: Without an API key the script stops at the sidebar (lines 24--26): nothing is
  exported, no store is opened, the history is untouched.
\<close>

lemma run_without_key: "run svc [] inp st = (Stopped, st)"
  by (simp add: run_def)

text \<open>C4: In every state a server reaches, the chat history starts with the greeting
  and continues with turns, each a non-empty user message optionally followed
  by one assistant reply.
\<close>

lemma reachable_session_ok: "reachable S st \<Longrightarrow> session_ok (messages st)"
proof (induction rule: reachable.induct)
  case (init d)
  show ?case by (simp add: init_state_def session_ok_def)
next
  case (step st svc k inp)
  from step.IH show ?case by (rule session_ok_run)
next
  case (delete_store st)
  then show ?case by simp
next
  case (restart st)
  show ?case by (simp add: init_state_def session_ok_def)
qed

lemma reachable_session_ok_witness:
  "session_ok (messages (\<lparr>env_key = Some ''key'', db_disk = Some [''a''], cache = Some [''a''],
      messages = Some [greeting, \<lparr>role = User, content = ''hi''\<rparr>, \<lparr>role = Assistant, content = ''ok''\<rparr>]\<rparr> :: string app_state))"
  by (rule reachable_session_ok [OF demo_reachable])

text \<open>C5: A run with a question refines the abstract conversation step: when the
  store opens, the new history is the history of the conversation extended by
  the question and the chain's reply (none if the chain failed).
\<close>

lemma run_refines_converse:
  assumes "k \<noteq> []" "open_store svc (st\<lparr>env_key := Some k\<rparr>) = (Inr store, st')" "q \<noteq> []"
    and "messages st = Some (hist_of xs) \<or> (messages st = None \<and> xs = [])"
  shows "messages (snd (run svc k (Some q) st)) = Some (hist_of (converse svc store q xs))"
proof -
  have "messages st' = messages st"
    using open_store_messages [of svc "st\<lparr>env_key := Some k\<rparr>"] assms(2) by simp
  with assms show ?thesis
    by (auto simp: run_def chat_def converse_def hist_of_def Let_def split: sum.splits)
qed

lemma run_refines_converse_witness:
  "messages (snd (run (\<lparr>corpus = Some [''a''], split_documents = id, from_documents = (\<lambda>_. None),
      retrieve = (\<lambda>s q. Inr s), complete = (\<lambda>p. Inr ''ok''), chunk_repr = id\<rparr> :: (string, string, string) services) ''key'' (Some ''hi'') (init_state (Some [''a''])))) =
     Some (hist_of (converse (\<lparr>corpus = Some [''a''], split_documents = id, from_documents = (\<lambda>_. None),
      retrieve = (\<lambda>s q. Inr s), complete = (\<lambda>p. Inr ''ok''), chunk_repr = id\<rparr> :: (string, string, string) services) [''a''] ''hi'' []))"
  by (rule run_refines_converse) (simp_all add: open_store_def init_state_def)

text \<open>C6: Once \<open>DB_PATH\<close> exists the store is never rebuilt: a run does not depend
  on the corpus, the splitter or the indexer, and leaves the persisted store as
  it is, so later edits of \<open>data_clean\<close> never reach the answers.
\<close>

lemma stale_store:
  assumes "db_disk st = Some cs"
  shows "run svc k inp st = run (svc\<lparr>corpus := c, split_documents := f, from_documents := g\<rparr>) k inp st \<and>
         db_disk (snd (run svc k inp st)) = Some cs"
  using assms by (auto simp: run_def open_store_def chat_def answer_def Let_def split: option.splits sum.splits)

lemma stale_store_witness:
  "run (\<lparr>corpus = Some [''a''], split_documents = id, from_documents = (\<lambda>_. None),
      retrieve = (\<lambda>s q. Inr s), complete = (\<lambda>p. Inr ''ok''), chunk_repr = id\<rparr> :: (string, string, string) services) ''key'' (Some ''hi'') (init_state (Some [''a''])) =
     run ((\<lparr>corpus = Some [''a''], split_documents = id, from_documents = (\<lambda>_. None),
      retrieve = (\<lambda>s q. Inr s), complete = (\<lambda>p. Inr ''ok''), chunk_repr = id\<rparr> :: (string, string, string) services)\<lparr>corpus := Some [''b''], split_documents := (\<lambda>d. d @ d), from_documents := (\<lambda>_. None)\<rparr>)
       ''key'' (Some ''hi'') (init_state (Some [''a''])) \<and>
   db_disk (snd (run (\<lparr>corpus = Some [''a''], split_documents = id, from_documents = (\<lambda>_. None),
      retrieve = (\<lambda>s q. Inr s), complete = (\<lambda>p. Inr ''ok''), chunk_repr = id\<rparr> :: (string, string, string) services) ''key'' (Some ''hi'') (init_state (Some [''a''])))) = Some [''a'']"
  by (rule stale_store) (simp add: init_state_def)

text \<open>C18: The first run with a key and no persisted store splits the corpus, indexes
  the chunks, and persists and caches exactly those chunks.
\<close>

lemma first_build:
  assumes "k \<noteq> []" "db_disk st = None" "cache st = None" "corpus svc = Some docs"
    and "from_documents svc (split_documents svc docs) = None"
  shows "db_disk (snd (run svc k inp st)) = Some (split_documents svc docs) \<and>
         cache (snd (run svc k inp st)) = Some (split_documents svc docs)"
  using assms by (auto simp: run_def open_store_def load_data_def chat_def Let_def split: option.splits sum.splits)

lemma first_build_witness:
  "db_disk (snd (run (\<lparr>corpus = Some [''a''], split_documents = id, from_documents = (\<lambda>_. None),
      retrieve = (\<lambda>s q. Inr s), complete = (\<lambda>p. Inr ''ok''), chunk_repr = id\<rparr> :: (string, string, string) services) ''key'' None (init_state None))) = Some [''a''] \<and>
   cache (snd (run (\<lparr>corpus = Some [''a''], split_documents = id, from_documents = (\<lambda>_. None),
      retrieve = (\<lambda>s q. Inr s), complete = (\<lambda>p. Inr ''ok''), chunk_repr = id\<rparr> :: (string, string, string) services) ''key'' None (init_state None))) = Some [''a'']"
  using first_build [of "''key''" "init_state None" "\<lparr>corpus = Some [''a''], split_documents = id, from_documents = (\<lambda>_. None),
      retrieve = (\<lambda>s q. Inr s), complete = (\<lambda>p. Inr ''ok''), chunk_repr = id\<rparr> :: (string, string, string) services" "[''a'']" None]
  by (simp add: init_state_def)

text \<open>C19: With a key but neither a persisted store nor \<open>data_clean\<close>,
  \<open>load_data\<close> stops the run (lines 33--35): the key is exported and nothing
  else changes, in particular nothing is cached.
\<close>

lemma data_missing_stops:
  assumes "k \<noteq> []" "db_disk st = None" "cache st = None" "corpus svc = None"
  shows "run svc k inp st = (Stopped, st\<lparr>env_key := Some k\<rparr>)"
  using assms by (simp add: run_def open_store_def load_data_def)

lemma data_missing_stops_witness:
  "run ((\<lparr>corpus = Some [''a''], split_documents = id, from_documents = (\<lambda>_. None),
      retrieve = (\<lambda>s q. Inr s), complete = (\<lambda>p. Inr ''ok''), chunk_repr = id\<rparr> :: (string, string, string) services)\<lparr>corpus := None\<rparr>) ''key'' None (init_state None) =
     (Stopped, (init_state None)\<lparr>env_key := Some ''key''\<rparr>)"
  by (rule data_missing_stops) (simp_all add: init_state_def)

text \<open>C7: When the chain fails (the retriever or the model raises), the run crashes
  after the user's message was appended (line 84): the question stays in the
  history without a reply, and the next question follows it directly.
\<close>

lemma chain_failure_keeps_question:
  assumes "k \<noteq> []" "db_disk st = Some cs" "messages st = Some ms" "q \<noteq> []" "answer svc cs q = Inl e"
  shows "run svc k (Some q) st =
           (Crashed e, st\<lparr>env_key := Some k, messages := Some (ms @ [\<lparr>role = User, content = q\<rparr>])\<rparr>)"
  using assms by (simp add: run_def open_store_def chat_def)

lemma chain_failure_keeps_question_witness:
  "run (\<lparr>corpus = Some [''a''], split_documents = id, from_documents = (\<lambda>_. None),
      retrieve = (\<lambda>s q. Inr s), complete = (\<lambda>p. Inl ''timeout''), chunk_repr = id\<rparr> :: (string, string, string) services) ''key'' (Some ''q2'')
       \<lparr>env_key = Some ''key'', db_disk = Some [''a''], cache = None,
        messages = Some [greeting, \<lparr>role = User, content = ''q1''\<rparr>]\<rparr> =
     (Crashed (Service ''timeout''),
      \<lparr>env_key = Some ''key'', db_disk = Some [''a''], cache = None,
       messages = Some [greeting, \<lparr>role = User, content = ''q1''\<rparr>, \<lparr>role = User, content = ''q2''\<rparr>]\<rparr>)"
proof -
  have a: "answer (\<lparr>corpus = Some [''a''], split_documents = id, from_documents = (\<lambda>_. None),
      retrieve = (\<lambda>s q. Inr s), complete = (\<lambda>p. Inl ''timeout''), chunk_repr = id\<rparr> :: (string, string, string) services) [''a''] ''q2'' = Inl (Service ''timeout'')"
    by code_simp
  show ?thesis using chain_failure_keeps_question [OF _ _ _ _ a] by simp
qed

text \<open>C8: Deleting \<open>DB_PATH\<close> under a running server, the way to force a
  rebuild, does not rebuild the store: \<open>load_data\<close> answers from its
  resource cache, so a run does not depend on the corpus, the splitter or the
  indexer, and \<open>DB_PATH\<close> stays absent until the server restarts.
\<close>

lemma deleted_store_not_rebuilt:
  assumes "db_disk st = None" "cache st = Some v"
  shows "run svc k inp st = run (svc\<lparr>corpus := c, split_documents := f, from_documents := g\<rparr>) k inp st \<and>
         db_disk (snd (run svc k inp st)) = None \<and> cache (snd (run svc k inp st)) = Some v"
  using assms by (auto simp: run_def open_store_def load_data_def chat_def answer_def Let_def split: option.splits sum.splits)

lemma deleted_store_not_rebuilt_witness:
  "reachable (UNIV :: (string, string, string) services set) (\<lparr>env_key = Some ''key'', db_disk = None, cache = Some [''a''],
      messages = Some [greeting, \<lparr>role = User, content = ''hi''\<rparr>, \<lparr>role = Assistant, content = ''ok''\<rparr>]\<rparr>) \<and>
   db_disk (snd (run (\<lparr>corpus = Some [''a''], split_documents = id, from_documents = (\<lambda>_. None),
      retrieve = (\<lambda>s q. Inr s), complete = (\<lambda>p. Inr ''ok''), chunk_repr = id\<rparr> :: (string, string, string) services) ''key'' (Some ''q'') (\<lparr>env_key = Some ''key'', db_disk = None, cache = Some [''a''],
      messages = Some [greeting, \<lparr>role = User, content = ''hi''\<rparr>, \<lparr>role = Assistant, content = ''ok''\<rparr>]\<rparr>))) = None \<and>
   cache (snd (run (\<lparr>corpus = Some [''a''], split_documents = id, from_documents = (\<lambda>_. None),
      retrieve = (\<lambda>s q. Inr s), complete = (\<lambda>p. Inr ''ok''), chunk_repr = id\<rparr> :: (string, string, string) services) ''key'' (Some ''q'') (\<lparr>env_key = Some ''key'', db_disk = None, cache = Some [''a''],
      messages = Some [greeting, \<lparr>role = User, content = ''hi''\<rparr>, \<lparr>role = Assistant, content = ''ok''\<rparr>]\<rparr>))) = Some [''a'']"
proof -
  have r: "reachable (UNIV :: (string, string, string) services set) (\<lparr>env_key = Some ''key'', db_disk = None, cache = Some [''a''],
      messages = Some [greeting, \<lparr>role = User, content = ''hi''\<rparr>, \<lparr>role = Assistant, content = ''ok''\<rparr>]\<rparr>)"
    using reachable.delete_store [OF demo_reachable] by simp
  have "db_disk (snd (run (\<lparr>corpus = Some [''a''], split_documents = id, from_documents = (\<lambda>_. None),
      retrieve = (\<lambda>s q. Inr s), complete = (\<lambda>p. Inr ''ok''), chunk_repr = id\<rparr> :: (string, string, string) services) ''key'' (Some ''q'') (\<lparr>env_key = Some ''key'', db_disk = None, cache = Some [''a''],
      messages = Some [greeting, \<lparr>role = User, content = ''hi''\<rparr>, \<lparr>role = Assistant, content = ''ok''\<rparr>]\<rparr>))) = None \<and>
        cache (snd (run (\<lparr>corpus = Some [''a''], split_documents = id, from_documents = (\<lambda>_. None),
      retrieve = (\<lambda>s q. Inr s), complete = (\<lambda>p. Inr ''ok''), chunk_repr = id\<rparr> :: (string, string, string) services) ''key'' (Some ''q'') (\<lparr>env_key = Some ''key'', db_disk = None, cache = Some [''a''],
      messages = Some [greeting, \<lparr>role = User, content = ''hi''\<rparr>, \<lparr>role = Assistant, content = ''ok''\<rparr>]\<rparr>))) = Some [''a'']"
    by (rule conjunct2 [OF deleted_store_not_rebuilt]) simp_all
  with r show ?thesis by simp
qed

text \<open>C9: When indexing fails on the first build (the embedding call raises, say
  for a wrong key), the run crashes but leaves an empty store in
  \<open>DB_PATH\<close>; later runs reopen it instead of building the index.
\<close>

lemma failed_build_leaves_empty_store:
  assumes "k \<noteq> []" "db_disk st = None" "cache st = None" "corpus svc = Some docs"
    and "from_documents svc (split_documents svc docs) = Some e"
  shows "run svc k inp st = (Crashed (Service e), st\<lparr>env_key := Some k, db_disk := Some []\<rparr>)"
  using assms by (simp add: run_def open_store_def load_data_def)

lemma failed_build_leaves_empty_store_witness:
  "run (\<lparr>corpus = Some [''a''], split_documents = id, from_documents = (\<lambda>_. Some ''401''),
      retrieve = (\<lambda>s q. Inr s), complete = (\<lambda>p. Inr ''ok''), chunk_repr = id\<rparr> :: (string, string, string) services) ''key'' None (init_state None) =
     (Crashed (Service ''401''), \<lparr>env_key = Some ''key'', db_disk = Some [], cache = None, messages = None\<rparr>)"
proof -
  have "run (\<lparr>corpus = Some [''a''], split_documents = id, from_documents = (\<lambda>_. Some ''401''),
      retrieve = (\<lambda>s q. Inr s), complete = (\<lambda>p. Inr ''ok''), chunk_repr = id\<rparr> :: (string, string, string) services) ''key'' None (init_state None) =
     (Crashed (Service ''401''), (init_state None)\<lparr>env_key := Some ''key'', db_disk := Some []\<rparr>)"
    by (rule failed_build_leaves_empty_store [where docs = "[''a'']"]) (simp_all add: init_state_def)
  then show ?thesis by (simp add: init_state_def)
qed

text \<open>C20: The history only grows: a run never removes or rewrites a message.
\<close>

lemma history_append_only:
  "messages st = Some ms \<Longrightarrow> \<exists>ys. messages (snd (run svc k inp st)) = Some (ms @ ys)"
  by (auto simp: run_def open_store_def load_data_def chat_def Let_def split: option.splits sum.splits)

lemma history_append_only_witness:
  "\<exists>ys. messages (snd (run (\<lparr>corpus = Some [''a''], split_documents = id, from_documents = (\<lambda>_. None),
      retrieve = (\<lambda>s q. Inr s), complete = (\<lambda>p. Inr ''ok''), chunk_repr = id\<rparr> :: (string, string, string) services) ''key'' (Some ''hi'') ((init_state (Some [''a'']))\<lparr>messages := Some [greeting]\<rparr>))) =
     Some ([greeting] @ ys)"
  by (rule history_append_only) simp

text \<open>C22: The exported \<open>MISTRAL_API_KEY\<close> is never the empty string.
\<close>

lemma reachable_key: "reachable S st \<Longrightarrow> env_key st \<noteq> Some []"
  by (induction rule: reachable.induct)
    (auto simp: init_state_def run_def open_store_def load_data_def Let_def split: option.splits sum.splits prod.splits if_splits)

lemma reachable_key_witness: "env_key (\<lparr>env_key = Some ''key'', db_disk = Some [''a''], cache = Some [''a''],
      messages = Some [greeting, \<lparr>role = User, content = ''hi''\<rparr>, \<lparr>role = Assistant, content = ''ok''\<rparr>]\<rparr> :: string app_state) \<noteq> Some []"
  by (rule reachable_key [OF demo_reachable])

end
