(* ===== verification/Clean_Batch.thy ===== *)
theory Clean_Batch
  imports Normalizer
begin

text \<open>
  The batch script \<open>main\<close> of \<open>src/clean_data.py\<close> (lines 18--37): create
  \<open>data_clean\<close> if needed, then for every name \<open>os.listdir("data")\<close> returns
  that ends in \<open>.txt\<close>, read the file, clean it with \<open>clean_text\<close> and write
  the result under the same name into \<open>data_clean\<close>; an exception while
  reading or writing one file is caught, reported, and the loop goes on.

  The file system is the record \<open>batch_env\<close>: the listing of \<open>data\<close>
  (\<open>None\<close> when the directory is missing: \<open>os.listdir\<close> raises and
  nothing catches it), the result of reading each file (\<open>None\<close> when
  \<open>open\<close> or \<open>read\<close> raises; with \<open>errors="ignore"\<close> decoding never does),
  and what writing a file does.  \<open>open(clean_path, "w")\<close> (line 32) either
  raises, leaving the target as it was, or truncates it; \<open>f.write\<close> (line 33)
  and the closing of the file then either succeed or raise after only a prefix
  of the text has reached the file.  The printed messages are the entries of
  \<open>log\<close>.
  \<open>main\<close> returns the uncaught error, if any, with the file system it leaves.
\<close>

datatype log_entry = Cleaned string | Failed string

datatype write_result = Write_Ok | Open_Fails | Write_Fails nat

record batch_env =
  source_listing :: "string list option"
  read_file :: "string \<Rightarrow> string option"
  write_file :: "string \<Rightarrow> write_result"

record batch_state =
  clean_dir_exists :: bool
  clean_files :: "string \<Rightarrow> string option"
  log :: "log_entry list"

datatype batch_error = SourceDirMissing

text \<open>\<open>str.endswith\<close>.\<close>

definition py_endswith :: "string \<Rightarrow> string \<Rightarrow> bool" where
  "py_endswith s suf \<longleftrightarrow> length suf \<le> length s \<and> drop (length s - length suf) s = suf"

text \<open>
  The content of \<open>data_clean/f\<close> after writing \<open>text\<close> into it (lines
  32--33), given its previous content: \<open>Write_Fails n\<close> leaves the first
  \<open>n\<close> characters.
\<close>

fun write_effect :: "write_result \<Rightarrow> string \<Rightarrow> string option \<Rightarrow> string option" where
  "write_effect Write_Ok text old = Some text"
| "write_effect Open_Fails text old = old"
| "write_effect (Write_Fails n) text old = Some (take n text)"

text \<open>One iteration of the loop, lines 23--37.\<close>

definition process_file :: "batch_env \<Rightarrow> batch_state \<Rightarrow> string \<Rightarrow> batch_state" where
  "process_file env st filename =
     (if \<not> py_endswith filename ''.txt'' then st
      else
        (case read_file env filename of
           None \<Rightarrow> st\<lparr>log := log st @ [Failed filename]\<rparr>
         | Some content \<Rightarrow>
             (let cleaned_content = clean_text content;
                  w = write_file env filename
              in st\<lparr>clean_files := (clean_files st)(filename := write_effect w cleaned_content (clean_files st filename)),
                    log := log st @ [if w = Write_Ok then Cleaned filename else Failed filename]\<rparr>)))"

definition main :: "batch_env \<Rightarrow> batch_state \<Rightarrow> batch_error option \<times> batch_state" where
  "main env st =
     (let st1 = st\<lparr>clean_dir_exists := True\<rparr> in
      case source_listing env of
        None \<Rightarrow> (Some SourceDirMissing, st1)
      | Some names \<Rightarrow> (None, foldl (process_file env) st1 names))"

text \<open>Whether the script cleans and writes the file \<open>f\<close>.\<close>

definition cleans :: "batch_env \<Rightarrow> string \<Rightarrow> bool" where
  "cleans env f \<longleftrightarrow> py_endswith f ''.txt'' \<and> read_file env f \<noteq> None \<and> write_file env f = Write_Ok"

definition entry_of :: "batch_env \<Rightarrow> string \<Rightarrow> log_entry" where
  "entry_of env f = (if cleans env f then Cleaned f else Failed f)"

subsection \<open>The loop\<close>

lemma foldl_process_log:
  "log (foldl (process_file env) st names) =
     log st @ map (entry_of env) (filter (\<lambda>f. py_endswith f ''.txt'') names)"
  by (induction names arbitrary: st)
    (auto simp: process_file_def entry_of_def cleans_def Let_def split: option.splits)

lemma foldl_process_files:
  "clean_files (foldl (process_file env) st names) f =
     (if f \<in> set names \<and> py_endswith f ''.txt'' then
        (case read_file env f of
           None \<Rightarrow> clean_files st f
         | Some c \<Rightarrow> write_effect (write_file env f) (clean_text c) (clean_files st f))
      else clean_files st f)"
proof (induction names arbitrary: st)
  case (Cons g names)
  show ?case
  proof (cases "g = f \<and> py_endswith f ''.txt''")
    case True
    then show ?thesis using Cons.IH
      by (cases "write_file env f")
        (auto simp: process_file_def Let_def split: option.splits)
  next
    case False
    then show ?thesis using Cons.IH
      by (auto simp: process_file_def Let_def split: option.splits)
  qed
qed simp

lemma foldl_process_dir:
  "clean_dir_exists (foldl (process_file env) st names) = clean_dir_exists st"
  by (induction names arbitrary: st) (auto simp: process_file_def Let_def split: option.splits)

subsection \<open>Properties of the batch script\<close>

text \<open>C12: Every \<open>.txt\<close> file of the listing is reported once, in listing order,
  as cleaned exactly when it could be read and written; a failing file does not
  stop the loop.\<close>

lemma main_log:
  "source_listing env = Some names \<Longrightarrow>
   log (snd (main env st)) = log st @ map (entry_of env) (filter (\<lambda>f. py_endswith f ''.txt'') names)"
  by (simp add: main_def foldl_process_log)

lemma main_log_witness:
  "log (snd (main \<lparr>source_listing = Some [''a.txt'', ''b.pdf'', ''c.txt''],
                    read_file = (\<lambda>f. if f = ''c.txt'' then None else Some ''x''), write_file = (\<lambda>_. Write_Ok)\<rparr>
                  \<lparr>clean_dir_exists = False, clean_files = Map.empty, log = []\<rparr>)) =
   [Cleaned ''a.txt'', Failed ''c.txt'']"
  by (subst main_log [where names = "[''a.txt'', ''b.pdf'', ''c.txt'']"])
    (simp_all add: entry_of_def cleans_def py_endswith_def)

text \<open>C11: After the loop, \<open>data_clean/f\<close> for a listed \<open>.txt\<close> file
  \<open>f\<close> that could be read is what writing \<open>clean_text\<close> of \<open>data/f\<close> left
  there: the cleaned text, the old content if \<open>open\<close> failed, or a truncated
  prefix of the cleaned text if the write failed; every other file of
  \<open>data_clean\<close> is unchanged.\<close>

lemma main_outputs:
  "source_listing env = Some names \<Longrightarrow>
   clean_files (snd (main env st)) f =
     (if f \<in> set names \<and> py_endswith f ''.txt'' then
        (case read_file env f of
           None \<Rightarrow> clean_files st f
         | Some c \<Rightarrow> write_effect (write_file env f) (clean_text c) (clean_files st f))
      else clean_files st f)"
  by (simp add: main_def foldl_process_files split: option.splits)

lemma main_outputs_witness:
  "clean_files (snd (main \<lparr>source_listing = Some [''a.txt''], read_file = (\<lambda>f. Some ''Rules 7''),
                            write_file = (\<lambda>_. Write_Fails 3)\<rparr>
                          \<lparr>clean_dir_exists = True, clean_files = [''a.txt'' \<mapsto> ''old''], log = []\<rparr>)) ''a.txt'' =
   Some ''Rul''"
proof -
  have "clean_text ''Rules 7'' = ''Rules 7''" by code_simp
  then show ?thesis
    by (subst main_outputs [where names = "[''a.txt'']"]) (simp_all add: py_endswith_def)
qed

text \<open>C23: Without a \<open>data\<close> directory the script fails after creating
  \<open>data_clean\<close>, and writes nothing.\<close>

lemma main_missing_source:
  "source_listing env = None \<Longrightarrow> main env st = (Some SourceDirMissing, st\<lparr>clean_dir_exists := True\<rparr>)"
  by (simp add: main_def)

lemma main_missing_source_witness:
  "main \<lparr>source_listing = None, read_file = (\<lambda>_. None), write_file = (\<lambda>_. Write_Ok)\<rparr>
        \<lparr>clean_dir_exists = False, clean_files = Map.empty, log = []\<rparr> =
   (Some SourceDirMissing, \<lparr>clean_dir_exists = True, clean_files = Map.empty, log = []\<rparr>)"
  by (simp add: main_missing_source)

end
