(* ===== verification/Spec2Isabelle.thy ===== *)
theory Spec2Isabelle
  imports Normalizer_Correct App_Correct Clean_Batch
begin

text \<open>
  Verification development for the University Chatbot repository
  (\<open>src/clean_data.py\<close>, \<open>src/app.py\<close>).

  \<^bold>\<open>The program.\<close>  \<open>clean_data.py\<close> normalises the raw corpus:
  \<open>clean_text\<close> removes markup tags, page-number lines and runs of blank
  lines with three \<open>re.sub\<close> passes and strips the result, and \<open>main\<close>
  applies it to every \<open>.txt\<close> file of \<open>data/\<close>, writing \<open>data_clean/\<close>.
  \<open>app.py\<close> is a Streamlit script, re-run on every user interaction: it stops
  until an API key is entered, reopens the Chroma store in \<open>DB_PATH\<close> or
  builds it from \<open>data_clean\<close> (\<open>load_data\<close>, cached), and on a chat
  message appends the user's turn, runs the chain retriever (k = 5) -- prompt
  template -- Mistral chat model, and appends the reply to the session history.

  \<^bold>\<open>Theories and what they model.\<close>
  \<^item> \<open>Prelude\<close>: Python's \<open>\s\<close>/\<open>str.isspace\<close> and \<open>\d\<close> classes on
    code points below 256 (\<open>py_isspace\<close>, \<open>py_isdigit\<close>), \<open>str.strip\<close>
    (\<open>py_strip\<close>), and the list facts the scanners share.
  \<^item> \<open>Regex_Sub\<close>: \<open>re.sub\<close> as the left-to-right scanner \<open>re_sub\<close> over
    a matcher, which returns the length of the match CPython's backtracking
    engine selects at a position, with \<open>^\<close> of \<open>re.MULTILINE\<close> as an argument.
  \<^item> \<open>Normalizer\<close>: the matchers of \<open><[^>]+>\<close> (\<open>tag_match\<close>),
    \<open>^\s*\d+\s*$\<close> (\<open>page_match\<close>, with the back-off of the trailing
    \<open>\s*\<close> to the last newline) and \<open>\n{3,}\<close> (\<open>nl_match\<close>), the three
    passes and \<open>clean_text\<close> (\<open>clean_data.py\<close> lines 8--16).
  \<^item> \<open>Normal_Form\<close>, \<open>Page_Lines\<close>: what each pass leaves behind:
    tag freedom, no three newlines, the line automaton \<open>pstep\<close> recognising
    \<open>\s*\d+\s*\<close> lines, \<open>str.split('\n')\<close> (\<open>lines_of\<close>), and the
    agreement of \<open>page_match\<close> with the automaton.
  \<^item> \<open>Normalizer_Correct\<close>: \<open>clean_text\<close> is idempotent, its output has no
    tag, page-number line or blank run and is stripped, and it is a fixpoint
    exactly on such texts; the tag matcher implements the regex's language.
  \<^item> \<open>Clean_Batch\<close>: \<open>main\<close> (lines 18--37) as a fold of \<open>process_file\<close>
    over the listing of \<open>data\<close>; the file system is the record
    \<open>batch_env\<close> (listing, per-file read result, per-file write outcome) and
    \<open>batch_state\<close> (\<open>data_clean\<close> and the printed report); a write that
    fails after \<open>open(..., "w")\<close> truncated the file leaves a prefix
    (\<open>write_effect\<close>).
  \<^item> \<open>Prompt\<close>: the template literal (\<open>app.py\<close> lines 63--73), Python's
    format-string parser and renderer that \<open>ChatPromptTemplate.from_template\<close>
    uses (line 74), and the context as \<open>str\<close> of the retrieved document list
    (lines 88--90); the exact prompt and the fallback sentence in it.
  \<^item> \<open>App\<close>: one script run \<open>run\<close> (lines 20--96) over the state record
    \<open>app_state\<close> (environment key, persisted store, \<open>cache_resource\<close> memo,
    session history), with \<open>load_data\<close>, \<open>open_store\<close>, the chain
    \<open>answer\<close> and the chat interface \<open>chat\<close>; the services (loader,
    splitter, indexer, retriever, chat model) are a record of parameters that may
    fail; a failed indexing call leaves an empty store in \<open>DB_PATH\<close>.  The
    reruns of a server process, with the operator deleting \<open>DB_PATH\<close> or
    restarting the server between them, are the inductive \<open>reachable\<close>; the
    abstract conversation (\<open>hist_of\<close>, \<open>converse\<close>) is the contract of the
    history.
  \<^item> \<open>App_Correct\<close>: the key gate, the build-or-reopen policy (stale store,
    first build, missing data, failed first build, deletion of \<open>DB_PATH\<close>
    under a running server), the history invariant and its refinement of the
    abstract conversation, failures of the chain, the exported key.
  \<^item> This theory: properties spanning the batch script and the normaliser.

  \<^bold>\<open>Bounds.\<close>  No fuel is needed: every loop of the program is over a finite
  string or list and is modelled by structural recursion (\<open>re_sub\<close>, the
  automaton, the file loop) or by \<open>parse_fmt\<close>, whose termination is proved
  with the length of the rest of the format string.  Characters are code points
  below 256; on that range the character classes are CPython's exactly.

  \<^bold>\<open>Not modelled.\<close>  The libraries and services the program only calls:
  \<open>RecursiveCharacterTextSplitter\<close>, \<open>DirectoryLoader\<close>, Chroma's storage
  and similarity search, the Mistral embedding and chat services (parameters of
  \<open>services\<close>); Streamlit's page output (titles, captions, the rendering of
  messages), which does not change state; the text of exception messages and of
  the script's prints (modelled as \<open>log\<close> entries); exceptions of the
  document loader and of \<open>print\<close> itself.  Concurrent first launches
  racing on \<open>DB_PATH\<close> are outside the sequential model of reruns.
\<close>

text \<open>C10: Every file the batch script writes to \<open>data_clean\<close> is the
  cleaned text of its source, has no page-number line and no run of three
  newlines, and is left unchanged by \<open>clean_text\<close>: cleaning the cleaned
  corpus again changes nothing.\<close>

theorem main_output_normalised:
  assumes "source_listing env = Some names" "f \<in> set names" "cleans env f"
  shows "\<exists>c t. read_file env f = Some c \<and> clean_files (snd (main env st)) f = Some t \<and>
           t = clean_text c \<and> clean_text t = t \<and> (\<forall>l\<in>set (lines_of t). \<not> is_page_line l) \<and> nl3_free t"
proof -
  obtain c where c: "read_file env f = Some c" using assms(3) by (auto simp: cleans_def)
  let ?t = "clean_text c"
  have "clean_text ?t = ?t"
    by (rule clean_text_id_if_normal)
      (simp_all add: tag_free_clean_text page_free_clean_text nl3_free_clean_text stripped_clean_text)
  moreover have "\<forall>l\<in>set (lines_of ?t). \<not> is_page_line l"
    using page_free_clean_text [of c] page_free_iff_lines by blast
  moreover have "clean_files (snd (main env st)) f = Some ?t"
    using main_outputs [OF assms(1)] assms(2,3) c by (simp add: cleans_def)
  ultimately show ?thesis using c nl3_free_clean_text [of c] by blast
qed

lemma main_output_normalised_witness:
  "clean_files (snd (main \<lparr>source_listing = Some [''r.txt''], read_file = (\<lambda>f. Some ''<b>Rules</b>\<newline>12\<newline>''),
                            write_file = (\<lambda>_. Write_Ok)\<rparr>
                          \<lparr>clean_dir_exists = True, clean_files = Map.empty, log = []\<rparr>)) ''r.txt'' = Some ''Rules'' \<and>
   clean_text ''Rules'' = ''Rules''"
proof -
  let ?env = "\<lparr>source_listing = Some [''r.txt''], read_file = (\<lambda>f. Some ''<b>Rules</b>\<newline>12\<newline>''),
               write_file = (\<lambda>_. Write_Ok)\<rparr>"
  let ?st = "\<lparr>clean_dir_exists = True, clean_files = Map.empty, log = []\<rparr>"
  have e: "clean_text ''<b>Rules</b>\<newline>12\<newline>'' = ''Rules''" by code_simp
  from main_output_normalised [of ?env "[''r.txt'']" "''r.txt''" ?st]
  obtain c t where "read_file ?env ''r.txt'' = Some c" "clean_files (snd (main ?env ?st)) ''r.txt'' = Some t"
    "t = clean_text c" "clean_text t = t"
    by (auto simp: cleans_def py_endswith_def)
  then show ?thesis using e by simp
qed

end
